theory Spec2Isabelle
  imports Main "HOL-Library.AList"
begin

section \<open>The URL shortener of main.go over a model of its store\<close>

text \<open>
  The server keeps two bbolt buckets: \<open>urls\<close> (URL to token) and \<open>keys\<close> (token to
  the JSON of a \<open>Key\<close>). Three pieces of code touch them: the handler \<open>Serve\<close>
  (resolve a token), the handler \<open>Mint\<close> (bind a URL to a token) and the background loop
  \<open>Expirer\<close> (sweep). Each is translated below, statement by statement.

  What the handlers do to the \<open>http.ResponseWriter\<close> is recorded as the list of calls
  they make on it, in order. Calls to \<open>log\<close> and \<open>httpLog\<close> are left out. The readings
  of \<open>time.Now()\<close> inside one transaction are taken as one instant \<open>now\<close>, an integer
  number of nanoseconds; \<open>rand.Int63()\<close> is an input.
\<close>

subsection \<open>Data\<close>

type_synonym bytes = string
type_synonym time = int

text \<open>\<open>type Key struct { Url string; Expiry time.Time }\<close>\<close>

record Key =
  Url :: string
  Expiry :: time

text \<open>The zero \<open>time.Time\<close> (1 January of year 1), in nanoseconds from the Unix epoch.\<close>

definition zero_Time :: time where
  "zero_Time = - 62135596800000000000"

text \<open>\<open>&Key{}\<close>\<close>

definition Key0 :: Key where
  "Key0 = \<lparr>Url = [], Expiry = zero_Time\<rparr>"

text \<open>\<open>time.Hour * 24 * 30\<close>\<close>

definition thirty_days :: int where
  "thirty_days = 3600000000000 * 24 * 30"

datatype error =
    ErrKeyRequired
  | ErrKeyTooLarge
  | ErrValueTooLarge
  | ErrBucketNameRequired
  | ErrDatabaseNotOpen
  | ErrCommit
  | ErrJSON
  | ErrForm
  | Errorf string error

text \<open>
  \<open>encoding/json\<close> is not part of the repository. The two calls the program makes are
  taken as parameters: \<open>json_Marshal\<close> returns the bytes or an error; \<open>json_Unmarshal\<close>
  is always called on a fresh \<open>&Key{}\<close> and returns the error, if any, together with what
  that \<open>Key\<close> holds afterwards (on an error it may be partly filled).
\<close>

record codec =
  json_Marshal :: "Key \<Rightarrow> error + bytes"
  json_Unmarshal :: "bytes \<Rightarrow> error option \<times> Key"

text \<open>A bucket holds its pairs in a list; the store maps a bucket name to its bucket.\<close>

type_synonym Bucket = "(bytes \<times> bytes) list"
type_synonym DB = "string \<Rightarrow> Bucket option"

text \<open>
  The failures of the storage engine that do not depend on the arguments of a call:
  a transaction that cannot begin, and a commit that fails.
\<close>

datatype fault = NoFault | BeginFails | CommitFails

text \<open>The calls a handler makes on its \<open>http.ResponseWriter\<close>.\<close>

datatype http_call =
    http_NotFound
  | http_Error string nat
  | http_Redirect string nat
  | rw_WriteHeader nat
  | fmt_Fprint string

abbreviation StatusOK :: nat where "StatusOK \<equiv> 200"
abbreviation StatusMovedPermanently :: nat where "StatusMovedPermanently \<equiv> 301"
abbreviation StatusBadRequest :: nat where "StatusBadRequest \<equiv> 400"
abbreviation StatusInternalServerError :: nat where "StatusInternalServerError \<equiv> 500"

text \<open>What the handlers read from the request.\<close>

record request =
  URL_Path :: string
  ParseForm :: "error option"
  FormValue_url :: string

subsection \<open>The storage engine\<close>

text \<open>bbolt's limits on a key and on a value.\<close>

definition MaxKeySize :: nat where
  "MaxKeySize = 32768"

definition MaxValueSize :: nat where
  "MaxValueSize = 2 ^ 31 - 2"

text \<open>\<open>tx.CreateBucketIfNotExists(name)\<close>\<close>

definition CreateBucketIfNotExists :: "DB \<Rightarrow> string \<Rightarrow> error + DB" where
  "CreateBucketIfNotExists tx name =
     (if name = [] then Inl ErrBucketNameRequired
      else case tx name of
             None \<Rightarrow> Inr (tx(name \<mapsto> []))
           | Some b \<Rightarrow> Inr tx)"

text \<open>\<open>bucket.Get(key)\<close>, on the bucket called \<open>name\<close>; a nil key is the empty key.\<close>

definition Bucket_Get :: "DB \<Rightarrow> string \<Rightarrow> bytes \<Rightarrow> bytes option" where
  "Bucket_Get tx name k = (case tx name of None \<Rightarrow> None | Some b \<Rightarrow> map_of b k)"

text \<open>
  \<open>bucket.Put(key, value)\<close>, with the checks bbolt makes on the arguments. The program
  only calls it on a bucket it has just created or found.
\<close>

definition Bucket_Put :: "DB \<Rightarrow> string \<Rightarrow> bytes \<Rightarrow> bytes \<Rightarrow> error + DB" where
  "Bucket_Put tx name k v =
     (if k = [] then Inl ErrKeyRequired
      else if MaxKeySize < length k then Inl ErrKeyTooLarge
      else if MaxValueSize < length v then Inl ErrValueTooLarge
      else case tx name of
             None \<Rightarrow> Inr tx
           | Some b \<Rightarrow> Inr (tx(name \<mapsto> AList.update k v b)))"

text \<open>\<open>bucket.Delete(key)\<close>; a key that is not there is not an error.\<close>

definition Bucket_Delete :: "DB \<Rightarrow> string \<Rightarrow> bytes \<Rightarrow> DB" where
  "Bucket_Delete tx name k =
     (case tx name of None \<Rightarrow> tx | Some b \<Rightarrow> tx(name \<mapsto> AList.delete k b))"

text \<open>
  \<open>db.View(fn)\<close>: the function reads the store and changes only what it has captured
  (\<open>'s\<close>).
\<close>

definition db_View ::
  "fault \<Rightarrow> DB \<Rightarrow> (DB \<Rightarrow> 's \<Rightarrow> 's \<times> error option) \<Rightarrow> 's \<Rightarrow> 's \<times> error option" where
  "db_View flt db fn s =
     (if flt = BeginFails then (s, Some ErrDatabaseNotOpen) else fn db s)"

text \<open>
  \<open>db.Update(fn)\<close>: when the function returns an error, or the commit fails, the store
  is rolled back; what the function has captured keeps its changes.
\<close>

definition db_Update ::
  "fault \<Rightarrow> DB \<Rightarrow> (DB \<Rightarrow> 's \<Rightarrow> DB \<times> 's \<times> error option) \<Rightarrow> 's \<Rightarrow> DB \<times> 's \<times> error option" where
  "db_Update flt db fn s =
     (if flt = BeginFails then (db, s, Some ErrDatabaseNotOpen)
      else case fn db s of
             (tx, s', Some e) \<Rightarrow> (db, s', Some e)
           | (tx, s', None) \<Rightarrow>
               if flt = CommitFails then (db, s', Some ErrCommit) else (tx, s', None))"

text \<open>The two namespaces of the specification, read from a store.\<close>

definition urlNamespace :: "DB \<Rightarrow> string \<Rightarrow> bytes option" where
  "urlNamespace db u = Bucket_Get db ''urls'' u"

definition tokenNamespace :: "DB \<Rightarrow> bytes \<Rightarrow> bytes option" where
  "tokenNamespace db t = Bucket_Get db ''keys'' t"

subsection \<open>Library functions on strings\<close>

text \<open>\<open>strings.TrimLeft(s, cutset)\<close>\<close>

definition TrimLeft :: "string \<Rightarrow> string \<Rightarrow> string" where
  "TrimLeft s cutset = dropWhile (\<lambda>c. c \<in> set cutset) s"

text \<open>\<open>strconv.FormatInt(i, base)\<close>, for a base from 2 to 36.\<close>

definition digits :: string where
  "digits = ''0123456789abcdefghijklmnopqrstuvwxyz''"

function formatBits :: "nat \<Rightarrow> nat \<Rightarrow> string" where
  "formatBits u base =
     (if base < 2 \<or> u < base then [digits ! u]
      else formatBits (u div base) base @ [digits ! (u mod base)])"
  by pat_completeness auto
termination
  by (relation "measure fst") auto

definition FormatInt :: "int \<Rightarrow> nat \<Rightarrow> string" where
  "FormatInt i base =
     (if i < 0 then CHR ''-'' # formatBits (nat (- i)) base else formatBits (nat i) base)"

subsection \<open>Serve\<close>

text \<open>The function passed to \<open>db.View\<close>; \<open>rw\<close> is the list of calls made so far.\<close>

definition Serve_tx ::
  "codec \<Rightarrow> time \<Rightarrow> request \<Rightarrow> DB \<Rightarrow> http_call list \<Rightarrow> http_call list \<times> error option" where
  "Serve_tx c now req tx rw =
     (case tx ''keys'' of
        None \<Rightarrow> (rw @ [http_NotFound], None)
      | Some keyBucket \<Rightarrow>
          (let keyStr = TrimLeft (URL_Path req) ''/'' in
           (case Bucket_Get tx ''keys'' keyStr of
              None \<Rightarrow> (rw @ [http_NotFound], None)
            | Some key \<Rightarrow>
                (case json_Unmarshal c key of
                   (Some err, keyObj) \<Rightarrow>
                     (rw @ [http_Error ''internal server error'' StatusInternalServerError], None)
                 | (None, keyObj) \<Rightarrow>
                     (let rw1 = (if Expiry keyObj < now then rw @ [http_NotFound] else rw)
                      in (rw1 @ [http_Redirect (Url keyObj) StatusMovedPermanently], None))))))"

definition Serve :: "codec \<Rightarrow> fault \<Rightarrow> time \<Rightarrow> DB \<Rightarrow> request \<Rightarrow> http_call list \<times> DB" where
  "Serve c flt now db req =
     (case db_View flt db (Serve_tx c now req) [] of
        (rw, Some err) \<Rightarrow>
          (rw @ [http_Error ''internal server error'' StatusInternalServerError], db)
      | (rw, None) \<Rightarrow> (rw, db))"

subsection \<open>Mint\<close>

text \<open>
  The function passed to \<open>db.Update\<close>. It assigns the captured variable \<open>key\<close>, which
  enters holding the candidate token. The record already stored is looked up under
  \<open>keyId\<close>, which is nil when the URL is new, not under \<open>key\<close>; both of its fields are
  then overwritten.
\<close>

definition Mint_tx ::
  "codec \<Rightarrow> time \<Rightarrow> string \<Rightarrow> DB \<Rightarrow> bytes \<Rightarrow> DB \<times> bytes \<times> error option" where
  "Mint_tx c now url tx key =
     (case CreateBucketIfNotExists tx ''urls'' of
        Inl err \<Rightarrow> (tx, key, Some (Errorf ''opening bucket `urls`'' err))
      | Inr tx1 \<Rightarrow>
     (case CreateBucketIfNotExists tx1 ''keys'' of
        Inl err \<Rightarrow> (tx1, key, Some (Errorf ''opening bucket `keys`'' err))
      | Inr tx2 \<Rightarrow>
          let keyId = Bucket_Get tx2 ''urls'' url;
              key1 = (case keyId of Some k \<Rightarrow> k | None \<Rightarrow> key);
              keyBytes = Bucket_Get tx2 ''keys'' (case keyId of Some k \<Rightarrow> k | None \<Rightarrow> []);
              keyObj = (case keyBytes of
                          None \<Rightarrow> Key0
                        | Some kb \<Rightarrow>
                            (case json_Unmarshal c kb of
                               (Some err, ko) \<Rightarrow> Key0
                             | (None, ko) \<Rightarrow> ko));
              keyObj1 = keyObj\<lparr>Url := url, Expiry := now + thirty_days\<rparr>
          in
          (case json_Marshal c keyObj1 of
             Inl err \<Rightarrow> (tx2, key1, Some (Errorf ''marshaling to JSON'' err))
           | Inr keyBytes1 \<Rightarrow>
          (case Bucket_Put tx2 ''urls'' url key1 of
             Inl err \<Rightarrow> (tx2, key1, Some (Errorf ''saving to urls'' err))
           | Inr tx3 \<Rightarrow>
          (case Bucket_Put tx3 ''keys'' key1 keyBytes1 of
             Inl err \<Rightarrow> (tx3, key1, Some (Errorf ''saving to keys'' err))
           | Inr tx4 \<Rightarrow> (tx4, key1, None))))))"

definition Mint ::
  "codec \<Rightarrow> fault \<Rightarrow> time \<Rightarrow> int \<Rightarrow> DB \<Rightarrow> request \<Rightarrow> http_call list \<times> DB" where
  "Mint c flt now rnd db req =
     (case ParseForm req of
        Some err \<Rightarrow> ([http_Error ''could not parse form data'' StatusBadRequest], db)
      | None \<Rightarrow>
          let url = FormValue_url req in
          if url = [] then ([http_Error ''missing `url`'' StatusBadRequest], db)
          else
            let key = FormatInt rnd 36 in
            case db_Update flt db (Mint_tx c now url) key of
              (db', key', err) \<Rightarrow>
                ((if err \<noteq> None
                  then [http_Error ''internal server error'' StatusInternalServerError]
                  else [])
                 @ [rw_WriteHeader StatusOK, fmt_Fprint key'], db'))"

subsection \<open>Expirer\<close>

text \<open>
  The function passed to \<open>keyBucket.ForEach\<close>, on the pair \<open>(k, v)\<close>; it appends to
  \<open>keyDeletes\<close> and \<open>urlDeletes\<close>.
\<close>

definition expire_entry ::
  "codec \<Rightarrow> time \<Rightarrow> bytes \<times> bytes \<Rightarrow> bytes list \<times> bytes list \<Rightarrow> bytes list \<times> bytes list" where
  "expire_entry c now kv acc =
     (case kv of (k, v) \<Rightarrow>
      case acc of (keyDeletes, urlDeletes) \<Rightarrow>
      case json_Unmarshal c v of (err, keyObj) \<Rightarrow>
        if err \<noteq> None \<or> Expiry keyObj < now
        then (keyDeletes @ [k], urlDeletes @ [Url keyObj])
        else (keyDeletes, urlDeletes))"

text \<open>
  The function passed to \<open>db.Update\<close>. \<open>ForEach\<close> visits the pairs of the bucket one
  after the other (bbolt does so in the order of the keys; the two lists are only used as
  sets, so the order does not show in the result); the two lists it builds are then deleted
  from the two buckets. The errors of \<open>ForEach\<close> and \<open>Delete\<close> are not looked at.
\<close>

definition Expirer_tx :: "codec \<Rightarrow> time \<Rightarrow> DB \<Rightarrow> unit \<Rightarrow> DB \<times> unit \<times> error option" where
  "Expirer_tx c now tx s =
     (case tx ''keys'' of
        None \<Rightarrow> (tx, s, None)
      | Some keyBucket \<Rightarrow>
          (case fold (expire_entry c now) keyBucket ([], []) of
             (keyDeletes, urlDeletes) \<Rightarrow>
               let tx1 = fold (\<lambda>k t. Bucket_Delete t ''keys'' k) keyDeletes tx;
                   tx2 = (case tx1 ''urls'' of
                            None \<Rightarrow> tx1
                          | Some urlBucket \<Rightarrow>
                              fold (\<lambda>u t. Bucket_Delete t ''urls'' u) urlDeletes tx1)
               in (tx2, s, None)))"

text \<open>One turn of the loop of \<open>Expirer\<close>: the error of \<open>db.Update\<close> is logged and dropped.\<close>

definition Expirer_cycle :: "codec \<Rightarrow> fault \<Rightarrow> time \<Rightarrow> DB \<Rightarrow> DB" where
  "Expirer_cycle c flt now db = fst (db_Update flt db (Expirer_tx c now) ())"

text \<open>
  The loop itself never returns. Here it runs for as many turns as there are entries in a
  list that gives, for each turn, the fault it meets and the time it reads.
\<close>

fun Expirer :: "codec \<Rightarrow> (fault \<times> time) list \<Rightarrow> DB \<Rightarrow> DB" where
  "Expirer c [] db = db"
| "Expirer c ((flt, now) # ticks) db = Expirer c ticks (Expirer_cycle c flt now db)"

subsection \<open>A codec for the examples\<close>

text \<open>
  The theorems below hold for every codec. Where an example needs a concrete one, it
  uses this: the expiry in decimal, a space, then the URL.
\<close>

primrec index_of :: "char \<Rightarrow> string \<Rightarrow> nat" where
  "index_of c [] = 0"
| "index_of c (d # ds) = (if c = d then 0 else Suc (index_of c ds))"

primrec parse_dec :: "string \<Rightarrow> nat \<Rightarrow> nat" where
  "parse_dec [] a = a"
| "parse_dec (c # cs) a = parse_dec cs (10 * a + index_of c digits)"

definition line_Marshal :: "Key \<Rightarrow> error + bytes" where
  "line_Marshal k =
     (if Expiry k < 0 then Inl ErrJSON
      else Inr (FormatInt (Expiry k) 10 @ CHR '' '' # Url k))"

definition line_Unmarshal :: "bytes \<Rightarrow> error option \<times> Key" where
  "line_Unmarshal b =
     (let ds = takeWhile (\<lambda>c. c \<in> set ''0123456789'') b in
      case dropWhile (\<lambda>c. c \<in> set ''0123456789'') b of
        [] \<Rightarrow> (Some ErrJSON, Key0)
      | r # u \<Rightarrow>
          if ds = [] \<or> r \<noteq> CHR '' '' then (Some ErrJSON, Key0)
          else (None, \<lparr>Url = u, Expiry = int (parse_dec ds 0)\<rparr>))"

definition line_codec :: codec where
  "line_codec = \<lparr>json_Marshal = line_Marshal, json_Unmarshal = line_Unmarshal\<rparr>"

text \<open>
  \<open>encoding/json\<close> writes a string coerced to valid UTF-8: a byte that is not part of a
  valid encoding is written as U+FFFD, the three bytes EF BF BD. The byte FF is never part
  of one. The codec below is the example codec with that replacement, of the byte FF only,
  in what it encodes.
\<close>

definition replace_0xFF :: "string \<Rightarrow> string" where
  "replace_0xFF s =
     concat (map (\<lambda>c. if c = CHR 0xFF then [CHR 0xEF, CHR 0xBF, CHR 0xBD] else [c]) s)"

definition coercing_Marshal :: "Key \<Rightarrow> error + bytes" where
  "coercing_Marshal k = line_Marshal (k\<lparr>Url := replace_0xFF (Url k)\<rparr>)"

definition coercing_codec :: codec where
  "coercing_codec = \<lparr>json_Marshal = coercing_Marshal, json_Unmarshal = line_Unmarshal\<rparr>"

subsection \<open>Requests and stores for the examples\<close>

definition POST_mint :: "string \<Rightarrow> request" where
  "POST_mint u = \<lparr>URL_Path = ''/mint'', ParseForm = None, FormValue_url = u\<rparr>"

definition GET :: "string \<Rightarrow> request" where
  "GET p = \<lparr>URL_Path = p, ParseForm = None, FormValue_url = []\<rparr>"

text \<open>The store after \<open>http://a\<close> has been minted at time 0 with the random number 10.\<close>

definition store_a :: DB where
  "store_a = [''urls'' \<mapsto> [(''http://a'', ''a'')],
              ''keys'' \<mapsto> [(''a'', ''2592000000000000 http://a'')]]"

text \<open>
  A store with three tokens: \<open>a\<close> expires at time 5, \<open>b\<close> at time 50, and the value
  under \<open>c\<close> does not decode.
\<close>

definition store_abc :: DB where
  "store_abc =
     [''urls'' \<mapsto> [(''http://a'', ''a''), (''http://b'', ''b''), (''http://c'', ''c'')],
      ''keys'' \<mapsto> [(''a'', ''5 http://a''), (''b'', ''50 http://b''), (''c'', ''garbage'')]]"

text \<open>
  The store after the URL of the single byte FF has been minted at time 0 with the random
  number 10, the codec being the one that coerces.
\<close>

definition store_ff :: DB where
  "store_ff =
     [''urls'' \<mapsto> [([CHR 0xFF], ''a'')],
      ''keys'' \<mapsto> [(''a'', ''2592000000000000 '' @ [CHR 0xEF, CHR 0xBF, CHR 0xBD])]]"

section \<open>The notions of the claims\<close>

text \<open>
  The test of the sweep on a stored value: it does not decode, or it decodes to a record
  whose expiry is before \<open>now\<close>.
\<close>

definition stale :: "codec \<Rightarrow> time \<Rightarrow> bytes \<Rightarrow> bool" where
  "stale c now v =
     (fst (json_Unmarshal c v) \<noteq> None \<or> Expiry (snd (json_Unmarshal c v)) < now)"

text \<open>
  What bbolt keeps true of every bucket: a key occurs once, and no key is empty
  (\<open>Put\<close> refuses the empty key).
\<close>

definition wf_DB :: "DB \<Rightarrow> bool" where
  "wf_DB db = (\<forall>name b. db name = Some b \<longrightarrow> distinct (map fst b) \<and> [] \<notin> fst ` set b)"

text \<open>The codec gives a record back: if it encodes \<open>k\<close>, the bytes decode to \<open>k\<close>.\<close>

definition roundtrips :: "codec \<Rightarrow> Key \<Rightarrow> bool" where
  "roundtrips c k =
     (case json_Marshal c k of Inl err \<Rightarrow> True | Inr b \<Rightarrow> json_Unmarshal c b = (None, k))"

text \<open>
  The token that \<open>Mint\<close> writes for a URL: the one the URL is bound to, or else the
  candidate.
\<close>

definition Mint_token :: "DB \<Rightarrow> string \<Rightarrow> int \<Rightarrow> bytes" where
  "Mint_token db url rnd =
     (case urlNamespace db url of Some k \<Rightarrow> k | None \<Rightarrow> FormatInt rnd 36)"

text \<open>The token \<open>t\<close> is bound to no URL other than \<open>url\<close>.\<close>

definition bound_only_to :: "DB \<Rightarrow> bytes \<Rightarrow> string \<Rightarrow> bool" where
  "bound_only_to db t url = (\<forall>u. urlNamespace db u = Some t \<longrightarrow> u = url)"

text \<open>
  The invariant across the two namespaces, at the time \<open>now\<close>: a URL bound to a token
  whose record decodes and has not expired is the target of that record.
\<close>

definition xinv :: "codec \<Rightarrow> time \<Rightarrow> DB \<Rightarrow> bool" where
  "xinv c now db =
     (\<forall>u t v k. urlNamespace db u = Some t \<and> tokenNamespace db t = Some v \<and>
        json_Unmarshal c v = (None, k) \<and> \<not> Expiry k < now \<longrightarrow> Url k = u)"

section \<open>Properties\<close>

subsection \<open>Strings\<close>

declare formatBits.simps [simp del]

lemma TrimLeft_slashes: "TrimLeft (replicate n (CHR ''/'') @ t) ''/'' = TrimLeft t ''/''"
  by (induction n) (simp_all add: TrimLeft_def)

lemma TrimLeft_id: "t = [] \<or> hd t \<noteq> CHR ''/'' \<Longrightarrow> TrimLeft t ''/'' = t"
  by (cases t) (simp_all add: TrimLeft_def)

lemma formatBits_nonempty: "formatBits u base \<noteq> []"
  by (subst formatBits.simps) simp

text \<open>A number below \<open>base ^ k\<close> is written with at most \<open>k\<close> digits.\<close>

lemma formatBits_length:
  "2 \<le> base \<Longrightarrow> u < base ^ k \<Longrightarrow> 0 < k \<Longrightarrow> length (formatBits u base) \<le> k"
proof (induction u base arbitrary: k rule: formatBits.induct)
  case (1 u base)
  show ?case
  proof (cases "u < base")
    case True
    then show ?thesis using "1.prems" by (subst formatBits.simps) simp
  next
    case False
    obtain j where k: "k = Suc j" using "1.prems" by (cases k) auto
    have j: "0 < j"
    proof (rule ccontr)
      assume "\<not> 0 < j"
      then have "k = 1" using k by simp
      then show False using "1.prems" False by simp
    qed
    have "u div base < base ^ j"
      using "1.prems" k by (simp add: less_mult_imp_div_less mult.commute)
    then have "length (formatBits (u div base) base) \<le> j"
      using "1.IH" [of j] False "1.prems" j by simp
    then show ?thesis
      using False "1.prems" k by (subst formatBits.simps) simp
  qed
qed

lemma digits_nth: "d < 36 \<Longrightarrow> digits ! d \<in> set digits"
  by (rule nth_mem) (simp add: digits_def)

lemma formatBits_chars:
  "2 \<le> base \<Longrightarrow> base \<le> 36 \<Longrightarrow> set (formatBits u base) \<subseteq> set digits"
proof (induction u base rule: formatBits.induct)
  case (1 u base)
  show ?case
  proof (cases "u < base")
    case True
    then have "digits ! u \<in> set digits" using "1.prems" by (intro digits_nth) simp
    then show ?thesis using True by (subst formatBits.simps) simp
  next
    case False
    have "u mod base < base" using "1.prems" by simp
    with "1.prems" have "u mod base < 36" by linarith
    then have "digits ! (u mod base) \<in> set digits" by (rule digits_nth)
    moreover have "set (formatBits (u div base) base) \<subseteq> set digits"
      using "1.IH" False "1.prems" by simp
    ultimately show ?thesis
      using False "1.prems" by (subst formatBits.simps) simp
  qed
qed

text \<open>The candidate token, for a value in the range of \<open>rand.Int63()\<close>.\<close>

lemma FormatInt_Int63:
  assumes "0 \<le> rnd" "rnd < 2 ^ 63"
  shows "FormatInt rnd 36 \<noteq> [] \<and> length (FormatInt rnd 36) \<le> 13
       \<and> set (FormatInt rnd 36) \<subseteq> set digits"
proof -
  have "nat rnd < 2 ^ 63" using assms by (simp add: nat_less_iff)
  also have "(2::nat) ^ 63 \<le> 36 ^ 13" by simp
  finally have "nat rnd < 36 ^ 13" .
  then have "length (formatBits (nat rnd) 36) \<le> 13"
    by (intro formatBits_length) simp_all
  moreover have "set (formatBits (nat rnd) 36) \<subseteq> set digits"
    by (intro formatBits_chars) simp_all
  ultimately show ?thesis
    using assms by (simp add: FormatInt_def formatBits_nonempty)
qed

text \<open>No token that \<open>FormatInt\<close> writes contains a slash.\<close>

lemma FormatInt_no_slash: "2 \<le> base \<Longrightarrow> base \<le> 36 \<Longrightarrow> CHR ''/'' \<notin> set (FormatInt i base)"
  using formatBits_chars [of base]
  by (auto simp: FormatInt_def digits_def)

lemma FormatInt_10: "FormatInt 10 36 = ''a''"
  by (simp add: FormatInt_def formatBits.simps digits_def)

lemma FormatInt_11: "FormatInt 11 36 = ''b''"
  by (simp add: FormatInt_def formatBits.simps digits_def)

subsection \<open>The example codec on the values the examples store\<close>

lemma line_Unmarshal_5:
  "line_Unmarshal ''5 http://a'' = (None, \<lparr>Url = ''http://a'', Expiry = 5\<rparr>)"
  by (simp add: line_Unmarshal_def digits_def)

lemma line_Unmarshal_50:
  "line_Unmarshal ''50 http://b'' = (None, \<lparr>Url = ''http://b'', Expiry = 50\<rparr>)"
  by (simp add: line_Unmarshal_def digits_def)

lemma line_Unmarshal_garbage: "line_Unmarshal ''garbage'' = (Some ErrJSON, Key0)"
  by (simp add: line_Unmarshal_def)

lemma FormatInt_expiry: "FormatInt 2592000000000000 10 = ''2592000000000000''"
  by (simp add: FormatInt_def formatBits.simps digits_def)

lemma FormatInt_expiry7: "FormatInt 2592000000000007 10 = ''2592000000000007''"
  by (simp add: FormatInt_def formatBits.simps digits_def)

lemma line_Marshal_0:
  "json_Marshal line_codec \<lparr>Url = u, Expiry = thirty_days\<rparr> = Inr (''2592000000000000 '' @ u)"
  by (simp add: line_codec_def line_Marshal_def thirty_days_def FormatInt_expiry)

lemma line_Marshal_7:
  "json_Marshal line_codec \<lparr>Url = u, Expiry = 7 + thirty_days\<rparr> =
     Inr (''2592000000000007 '' @ u)"
  by (simp add: line_codec_def line_Marshal_def thirty_days_def FormatInt_expiry7)

lemma line_Unmarshal_0:
  "json_Unmarshal line_codec (''2592000000000000 '' @ u) =
     (None, \<lparr>Url = u, Expiry = thirty_days\<rparr>)"
  by (simp add: line_codec_def line_Unmarshal_def thirty_days_def digits_def)

lemma line_Unmarshal_7:
  "json_Unmarshal line_codec (''2592000000000007 '' @ u) =
     (None, \<lparr>Url = u, Expiry = 7 + thirty_days\<rparr>)"
  by (simp add: line_codec_def line_Unmarshal_def thirty_days_def digits_def)

lemma roundtrips_0: "roundtrips line_codec \<lparr>Url = u, Expiry = thirty_days\<rparr>"
  using line_Unmarshal_0 [of u] by (simp add: roundtrips_def line_Marshal_0)

lemma roundtrips_7: "roundtrips line_codec \<lparr>Url = u, Expiry = 7 + thirty_days\<rparr>"
  using line_Unmarshal_7 [of u] by (simp add: roundtrips_def line_Marshal_7)

lemma stale_a: "stale line_codec 10 ''5 http://a''"
  by (simp add: stale_def line_codec_def line_Unmarshal_5)

lemma stale_b: "\<not> stale line_codec 10 ''50 http://b''"
  by (simp add: stale_def line_codec_def line_Unmarshal_50)

lemma stale_c: "stale line_codec 10 ''garbage''"
  by (simp add: stale_def line_codec_def line_Unmarshal_garbage)

subsection \<open>The store as the engine keeps it\<close>

lemma wf_DB_empty: "wf_DB Map.empty"
  by (simp add: wf_DB_def)

lemma wf_DB_no_empty_key: "wf_DB db \<Longrightarrow> Bucket_Get db name [] = None"
  by (auto simp: wf_DB_def Bucket_Get_def map_of_eq_None_iff split: option.splits)

lemma wf_DB_store_a: "wf_DB store_a"
  by (auto simp: wf_DB_def store_a_def split: if_splits)

lemma wf_DB_store_abc: "wf_DB store_abc"
  by (auto simp: wf_DB_def store_abc_def split: if_splits)

lemma fold_Bucket_Delete:
  "tx name = Some b \<Longrightarrow>
   fold (\<lambda>k t. Bucket_Delete t name k) ks tx = tx(name \<mapsto> fold AList.delete ks b)"
proof (induction ks arbitrary: tx b)
  case Nil
  then show ?case by (simp add: fun_upd_idem)
next
  case (Cons k ks)
  have "Bucket_Delete tx name k = tx(name \<mapsto> AList.delete k b)"
    using Cons.prems by (simp add: Bucket_Delete_def)
  moreover have "fold (\<lambda>k t. Bucket_Delete t name k) ks (tx(name \<mapsto> AList.delete k b)) =
      (tx(name \<mapsto> AList.delete k b))(name \<mapsto> fold AList.delete ks (AList.delete k b))"
    by (rule Cons.IH) simp
  ultimately show ?case by simp
qed

lemma map_of_fold_delete:
  "map_of (fold AList.delete ks b) k = (if k \<in> set ks then None else map_of b k)"
  by (induction ks arbitrary: b) (auto simp: delete_conv')

lemma distinct_fold_delete:
  "distinct (map fst b) \<Longrightarrow> distinct (map fst (fold AList.delete ks b))"
  by (induction ks arbitrary: b) (auto simp: distinct_delete)

lemma wf_bucket_fold_delete:
  assumes "distinct (map fst b) \<and> [] \<notin> fst ` set b"
  shows "distinct (map fst (fold AList.delete ks b)) \<and>
         [] \<notin> fst ` set (fold AList.delete ks b)"
proof -
  have "map_of b [] = None" using assms by (simp add: map_of_eq_None_iff)
  then have "map_of (fold AList.delete ks b) [] = None" by (simp add: map_of_fold_delete)
  then show ?thesis using assms by (simp add: map_of_eq_None_iff distinct_fold_delete)
qed

subsection \<open>Serve, case by case\<close>

text \<open>The lookup key is all that \<open>Serve\<close> takes from the request.\<close>

lemma Serve_path:
  "TrimLeft (URL_Path req) ''/'' = TrimLeft (URL_Path req') ''/'' \<Longrightarrow>
   Serve c flt now db req = Serve c flt now db req'"
  by (simp add: Serve_def db_View_def Serve_tx_def Let_def split: option.splits)

lemma Serve_absent:
  "tokenNamespace db (TrimLeft (URL_Path req) ''/'') = None \<Longrightarrow>
   Serve c NoFault now db req = ([http_NotFound], db)"
  by (auto simp: Serve_def db_View_def Serve_tx_def tokenNamespace_def Bucket_Get_def Let_def
      split: option.splits)

lemma Serve_corrupt:
  "tokenNamespace db (TrimLeft (URL_Path req) ''/'') = Some v \<Longrightarrow>
   json_Unmarshal c v = (Some e, k) \<Longrightarrow>
   Serve c NoFault now db req =
     ([http_Error ''internal server error'' StatusInternalServerError], db)"
  by (auto simp: Serve_def db_View_def Serve_tx_def tokenNamespace_def Bucket_Get_def Let_def
      split: option.splits)

lemma Serve_live:
  "tokenNamespace db (TrimLeft (URL_Path req) ''/'') = Some v \<Longrightarrow>
   json_Unmarshal c v = (None, k) \<Longrightarrow> \<not> Expiry k < now \<Longrightarrow>
   Serve c NoFault now db req = ([http_Redirect (Url k) StatusMovedPermanently], db)"
  by (auto simp: Serve_def db_View_def Serve_tx_def tokenNamespace_def Bucket_Get_def Let_def
      split: option.splits)

text \<open>
  An expired record, for every codec: the branch that answers \<open>http.NotFound\<close> does not
  return, so the handler goes on to \<open>http.Redirect\<close>.
\<close>

lemma Serve_expired:
  "tokenNamespace db (TrimLeft (URL_Path req) ''/'') = Some v \<Longrightarrow>
   json_Unmarshal c v = (None, k) \<Longrightarrow> Expiry k < now \<Longrightarrow>
   Serve c NoFault now db req =
     ([http_NotFound, http_Redirect (Url k) StatusMovedPermanently], db)"
  by (auto simp: Serve_def db_View_def Serve_tx_def tokenNamespace_def Bucket_Get_def Let_def
      split: option.splits)

text \<open>When the transaction cannot begin, the answer is the internal error alone.\<close>

lemma Serve_BeginFails:
  "Serve c BeginFails now db req =
     ([http_Error ''internal server error'' StatusInternalServerError], db)"
  by (simp add: Serve_def db_View_def)

text \<open>Writing a value under one key does not change what is served for another.\<close>

lemma Serve_other_key:
  assumes "db ''keys'' = Some b" and "TrimLeft (URL_Path req) ''/'' \<noteq> t"
  shows "fst (Serve c flt now (db(''keys'' \<mapsto> AList.update t g b)) req) =
         fst (Serve c flt now db req)"
  using assms
  by (simp add: Serve_def db_View_def Serve_tx_def Bucket_Get_def Let_def update_conv'
      split: option.splits prod.splits)

subsection \<open>Claims about Serve\<close>

text \<open>
  C1. A token whose record is present and decodable but expired should be answered with
  "not found" and nothing else. Here the store holds, under the token \<open>t1\<close>, a record for
  \<open>http://a\<close> that expired at time 5, and the request for \<open>/t1\<close> arrives at time 10.
  The handler calls \<open>http.NotFound\<close> and then, because that branch has no \<open>return\<close>,
  \<open>http.Redirect\<close> with the target URL.
\<close>

theorem C1_Serve_expired_falls_through:
  "Serve line_codec NoFault 10 [''keys'' \<mapsto> [(''t1'', ''5 http://a'')]] (GET ''/t1'') =
   ([http_NotFound, http_Redirect ''http://a'' StatusMovedPermanently],
    [''keys'' \<mapsto> [(''t1'', ''5 http://a'')]])"
  by (simp add: Serve_def db_View_def Serve_tx_def Bucket_Get_def TrimLeft_def Let_def GET_def
      line_codec_def line_Unmarshal_5)

text \<open>
  C7. When the value stored under the lookup key of a request does not decode, \<open>Serve\<close>
  answers with the internal error, which is not the answer "not found"; and whatever
  else the store holds, a request whose lookup key has a record that decodes and has not
  expired is redirected to the target of that record.
\<close>

theorem C7_Serve_corrupt_isolated:
  "(tokenNamespace db (TrimLeft (URL_Path req) ''/'') = Some v \<and>
    fst (json_Unmarshal c v) \<noteq> None \<longrightarrow>
      Serve c NoFault now db req =
        ([http_Error ''internal server error'' StatusInternalServerError], db) \<and>
      fst (Serve c NoFault now db req) \<noteq> [http_NotFound])
   \<and> (tokenNamespace db (TrimLeft (URL_Path req') ''/'') = Some v' \<and>
       json_Unmarshal c v' = (None, k') \<and> \<not> Expiry k' < now \<longrightarrow>
      Serve c NoFault now db req' =
        ([http_Redirect (Url k') StatusMovedPermanently], db))"
proof (intro conjI impI)
  assume a: "tokenNamespace db (TrimLeft (URL_Path req) ''/'') = Some v \<and>
    fst (json_Unmarshal c v) \<noteq> None"
  then obtain e k where "json_Unmarshal c v = (Some e, k)"
    by (cases "json_Unmarshal c v") auto
  with a show s: "Serve c NoFault now db req =
        ([http_Error ''internal server error'' StatusInternalServerError], db)"
    by (auto intro: Serve_corrupt)
  show "fst (Serve c NoFault now db req) \<noteq> [http_NotFound]"
    unfolding s by simp
next
  assume "tokenNamespace db (TrimLeft (URL_Path req') ''/'') = Some v' \<and>
       json_Unmarshal c v' = (None, k') \<and> \<not> Expiry k' < now"
  then show "Serve c NoFault now db req' =
        ([http_Redirect (Url k') StatusMovedPermanently], db)"
    by (auto intro: Serve_live)
qed

text \<open>
  C7, at an input: in the store with the three tokens, at time 10, the request for
  \<open>/c\<close> (a value that does not decode) gets the internal error and the request for
  \<open>/b\<close> is redirected.
\<close>

theorem C7_Serve_corrupt_isolated_witness:
  "tokenNamespace store_abc (TrimLeft (URL_Path (GET ''/c'')) ''/'') = Some ''garbage'' \<and>
   fst (json_Unmarshal line_codec ''garbage'') \<noteq> None \<and>
   Serve line_codec NoFault 10 store_abc (GET ''/c'') =
     ([http_Error ''internal server error'' StatusInternalServerError], store_abc) \<and>
   tokenNamespace store_abc (TrimLeft (URL_Path (GET ''/b'')) ''/'') = Some ''50 http://b'' \<and>
   json_Unmarshal line_codec ''50 http://b'' = (None, \<lparr>Url = ''http://b'', Expiry = 50\<rparr>) \<and>
   \<not> Expiry \<lparr>Url = ''http://b'', Expiry = 50\<rparr> < 10 \<and>
   Serve line_codec NoFault 10 store_abc (GET ''/b'') =
     ([http_Redirect ''http://b'' StatusMovedPermanently], store_abc)"
proof -
  have c: "tokenNamespace store_abc (TrimLeft (URL_Path (GET ''/c'')) ''/'') = Some ''garbage''"
    and b: "tokenNamespace store_abc (TrimLeft (URL_Path (GET ''/b'')) ''/'') =
              Some ''50 http://b''"
    by (simp_all add: tokenNamespace_def Bucket_Get_def store_abc_def GET_def TrimLeft_def)
  have g: "fst (json_Unmarshal line_codec ''garbage'') \<noteq> None"
    by (simp add: line_codec_def line_Unmarshal_garbage)
  have d: "json_Unmarshal line_codec ''50 http://b'' =
             (None, \<lparr>Url = ''http://b'', Expiry = 50\<rparr>)"
    by (simp add: line_codec_def line_Unmarshal_50)
  from C7_Serve_corrupt_isolated [of store_abc "GET ''/c''" "''garbage''" line_codec 10
      "GET ''/b''" "''50 http://b''" "\<lparr>Url = ''http://b'', Expiry = 50\<rparr>"] c b g d
  show ?thesis by simp
qed

text \<open>
  C8. For every request, every store, every time and every fault of the engine, the
  store that \<open>Serve\<close> leaves is the store it was given: both buckets are unchanged, on
  an expired hit as on any other.
\<close>

theorem C8_Serve_frame: "snd (Serve c flt now db req) = db"
  by (simp add: Serve_def split: prod.splits option.splits)

text \<open>
  C10. The lookup key is the path without its leading slashes. So for a token \<open>t\<close> that
  does not begin with a slash, the path of one or more slashes followed by \<open>t\<close> has the
  lookup key \<open>t\<close>, is served as \<open>/t\<close> is, and is answered from what the token
  namespace holds under \<open>t\<close>: "not found" when it holds nothing, the internal error when
  the value does not decode, the redirect to the target when the record has not expired.
  And in a store as the engine keeps it (no empty key), a path of slashes only is answered
  with "not found".
\<close>

theorem C10_Serve_trims_slashes:
  "(t = [] \<or> hd t \<noteq> CHR ''/'' \<longrightarrow>
      TrimLeft (replicate (Suc n) (CHR ''/'') @ t) ''/'' = t \<and>
      Serve c flt now db (req\<lparr>URL_Path := replicate (Suc n) (CHR ''/'') @ t\<rparr>) =
      Serve c flt now db (req\<lparr>URL_Path := CHR ''/'' # t\<rparr>) \<and>
      (tokenNamespace db t = None \<longrightarrow>
         Serve c NoFault now db (req\<lparr>URL_Path := replicate (Suc n) (CHR ''/'') @ t\<rparr>) =
           ([http_NotFound], db)) \<and>
      (\<forall>v e k. tokenNamespace db t = Some v \<and> json_Unmarshal c v = (Some e, k) \<longrightarrow>
         Serve c NoFault now db (req\<lparr>URL_Path := replicate (Suc n) (CHR ''/'') @ t\<rparr>) =
           ([http_Error ''internal server error'' StatusInternalServerError], db)) \<and>
      (\<forall>v k. tokenNamespace db t = Some v \<and> json_Unmarshal c v = (None, k) \<and>
             \<not> Expiry k < now \<longrightarrow>
         Serve c NoFault now db (req\<lparr>URL_Path := replicate (Suc n) (CHR ''/'') @ t\<rparr>) =
           ([http_Redirect (Url k) StatusMovedPermanently], db))) \<and>
   (wf_DB db \<longrightarrow>
      Serve c NoFault now db (req\<lparr>URL_Path := replicate n (CHR ''/'')\<rparr>) =
      ([http_NotFound], db))"
proof (intro conjI impI allI)
  assume t: "t = [] \<or> hd t \<noteq> CHR ''/''"
  let ?req = "req\<lparr>URL_Path := replicate (Suc n) (CHR ''/'') @ t\<rparr>"
  show trim: "TrimLeft (replicate (Suc n) (CHR ''/'') @ t) ''/'' = t"
    using TrimLeft_slashes [of "Suc n" t] TrimLeft_id [OF t] by simp
  then have key: "TrimLeft (URL_Path ?req) ''/'' = t" by simp
  have "TrimLeft (CHR ''/'' # t) ''/'' = t"
    using TrimLeft_slashes [of 1 t] TrimLeft_id [OF t] by simp
  with trim show "Serve c flt now db ?req = Serve c flt now db (req\<lparr>URL_Path := CHR ''/'' # t\<rparr>)"
    by (intro Serve_path) simp
  {
    assume "tokenNamespace db t = None"
    with key show "Serve c NoFault now db ?req = ([http_NotFound], db)"
      by (intro Serve_absent) simp
  }
  {
    fix v e k
    assume "tokenNamespace db t = Some v \<and> json_Unmarshal c v = (Some e, k)"
    with key show "Serve c NoFault now db ?req =
        ([http_Error ''internal server error'' StatusInternalServerError], db)"
      by (intro Serve_corrupt [of db ?req v c e k]) simp_all
  }
  {
    fix v k
    assume "tokenNamespace db t = Some v \<and> json_Unmarshal c v = (None, k) \<and> \<not> Expiry k < now"
    with key show "Serve c NoFault now db ?req =
        ([http_Redirect (Url k) StatusMovedPermanently], db)"
      by (intro Serve_live [of db ?req v c k now]) simp_all
  }
next
  assume "wf_DB db"
  then have e: "tokenNamespace db [] = None"
    by (simp add: tokenNamespace_def wf_DB_no_empty_key)
  have "TrimLeft (replicate n (CHR ''/'')) ''/'' = []"
    using TrimLeft_slashes [of n "[]"] by (simp add: TrimLeft_def)
  with e show "Serve c NoFault now db (req\<lparr>URL_Path := replicate n (CHR ''/'')\<rparr>) =
      ([http_NotFound], db)"
    by (intro Serve_absent) simp
qed

text \<open>
  C10, at an input: in the store with the three tokens, at time 10, the path \<open>///b\<close> is
  served as \<open>/b\<close> is and redirected to \<open>http://b\<close>, \<open>///c\<close> gets the internal error,
  \<open>///zz\<close> and \<open>//\<close> are answered with "not found".
\<close>

theorem C10_Serve_trims_slashes_witness:
  "(''b'' = [] \<or> hd ''b'' \<noteq> CHR ''/'') \<and>
   TrimLeft (replicate (Suc 2) (CHR ''/'') @ ''b'') ''/'' = ''b'' \<and>
   Serve line_codec NoFault 10 store_abc
     ((GET [])\<lparr>URL_Path := replicate (Suc 2) (CHR ''/'') @ ''b''\<rparr>) =
   Serve line_codec NoFault 10 store_abc ((GET [])\<lparr>URL_Path := CHR ''/'' # ''b''\<rparr>) \<and>
   tokenNamespace store_abc ''b'' = Some ''50 http://b'' \<and>
   json_Unmarshal line_codec ''50 http://b'' = (None, \<lparr>Url = ''http://b'', Expiry = 50\<rparr>) \<and>
   \<not> Expiry \<lparr>Url = ''http://b'', Expiry = 50\<rparr> < 10 \<and>
   Serve line_codec NoFault 10 store_abc
     ((GET [])\<lparr>URL_Path := replicate (Suc 2) (CHR ''/'') @ ''b''\<rparr>) =
     ([http_Redirect ''http://b'' StatusMovedPermanently], store_abc) \<and>
   tokenNamespace store_abc ''c'' = Some ''garbage'' \<and>
   json_Unmarshal line_codec ''garbage'' = (Some ErrJSON, Key0) \<and>
   Serve line_codec NoFault 10 store_abc
     ((GET [])\<lparr>URL_Path := replicate (Suc 2) (CHR ''/'') @ ''c''\<rparr>) =
     ([http_Error ''internal server error'' StatusInternalServerError], store_abc) \<and>
   tokenNamespace store_abc ''zz'' = None \<and>
   Serve line_codec NoFault 10 store_abc
     ((GET [])\<lparr>URL_Path := replicate (Suc 2) (CHR ''/'') @ ''zz''\<rparr>) =
     ([http_NotFound], store_abc) \<and>
   wf_DB store_abc \<and>
   Serve line_codec NoFault 10 store_abc ((GET [])\<lparr>URL_Path := replicate 2 (CHR ''/'')\<rparr>) =
     ([http_NotFound], store_abc)"
proof -
  have b: "tokenNamespace store_abc ''b'' = Some ''50 http://b''"
    and c: "tokenNamespace store_abc ''c'' = Some ''garbage''"
    and z: "tokenNamespace store_abc ''zz'' = None"
    by (simp_all add: tokenNamespace_def Bucket_Get_def store_abc_def)
  have db: "json_Unmarshal line_codec ''50 http://b'' =
      (None, \<lparr>Url = ''http://b'', Expiry = 50\<rparr>)"
    by (simp add: line_codec_def line_Unmarshal_50)
  have dc: "json_Unmarshal line_codec ''garbage'' = (Some ErrJSON, Key0)"
    by (simp add: line_codec_def line_Unmarshal_garbage)
  have hb: "''b'' = [] \<or> hd ''b'' \<noteq> CHR ''/''" and hc: "''c'' = [] \<or> hd ''c'' \<noteq> CHR ''/''"
    and hz: "''zz'' = [] \<or> hd ''zz'' \<noteq> CHR ''/''"
    by simp_all
  from C10_Serve_trims_slashes [of "''b''" 2 line_codec NoFault 10 store_abc "GET []"]
    C10_Serve_trims_slashes [of "''c''" 2 line_codec NoFault 10 store_abc "GET []"]
    C10_Serve_trims_slashes [of "''zz''" 2 line_codec NoFault 10 store_abc "GET []"]
    hb hc hz b c z db dc wf_DB_store_abc
  show ?thesis by auto
qed

subsection \<open>One turn of the sweep\<close>

lemma expire_entry_step:
  "expire_entry c now (k, v) (ks, us) =
     (if stale c now v then (ks @ [k], us @ [Url (snd (json_Unmarshal c v))]) else (ks, us))"
  by (simp add: expire_entry_def stale_def split: prod.splits)

text \<open>The two lists that the scan builds: the keys and the decoded URLs of the stale pairs.\<close>

lemma fold_expire_entry:
  "fold (expire_entry c now) b (ks, us) =
     (ks @ map fst (filter (\<lambda>kv. stale c now (snd kv)) b),
      us @ map (\<lambda>kv. Url (snd (json_Unmarshal c (snd kv))))
             (filter (\<lambda>kv. stale c now (snd kv)) b))"
proof (induction b arbitrary: ks us)
  case Nil
  show ?case by simp
next
  case (Cons kv b)
  show ?case
    by (cases kv) (simp add: expire_entry_step Cons.IH)
qed

lemma Expirer_cycle_no_keys:
  "db ''keys'' = None \<Longrightarrow> Expirer_cycle c flt now db = db"
  by (simp add: Expirer_cycle_def db_Update_def Expirer_tx_def)

text \<open>A turn whose transaction fails leaves the store as it was.\<close>

lemma Expirer_cycle_fault:
  "flt \<noteq> NoFault \<Longrightarrow> Expirer_cycle c flt now db = db"
  by (cases flt) (simp_all add: Expirer_cycle_def db_Update_def Expirer_tx_def Let_def
      split: option.splits prod.splits)

lemma Expirer_cycle_keys:
  assumes "db ''keys'' = Some b"
  shows "Expirer_cycle c NoFault now db ''keys'' =
           Some (fold AList.delete (map fst (filter (\<lambda>kv. stale c now (snd kv)) b)) b)"
  using assms fold_expire_entry [of c now b "[]" "[]"]
  by (auto simp: Expirer_cycle_def db_Update_def Expirer_tx_def Let_def fold_Bucket_Delete
      split: option.splits prod.splits)

lemma Expirer_cycle_urls:
  assumes "db ''keys'' = Some b"
  shows "Expirer_cycle c NoFault now db ''urls'' =
           (case db ''urls'' of None \<Rightarrow> None
            | Some ub \<Rightarrow> Some (fold AList.delete
                (map (\<lambda>kv. Url (snd (json_Unmarshal c (snd kv))))
                   (filter (\<lambda>kv. stale c now (snd kv)) b)) ub))"
  using assms fold_expire_entry [of c now b "[]" "[]"]
  by (auto simp: Expirer_cycle_def db_Update_def Expirer_tx_def Let_def fold_Bucket_Delete
      split: option.splits prod.splits)

lemma Expirer_cycle_other:
  "name \<noteq> ''keys'' \<Longrightarrow> name \<noteq> ''urls'' \<Longrightarrow> Expirer_cycle c flt now db name = db name"
proof (cases "flt = NoFault")
  case False
  then show ?thesis by (simp add: Expirer_cycle_fault)
next
  case True
  assume n: "name \<noteq> ''keys''" "name \<noteq> ''urls''"
  show ?thesis
  proof (cases "db ''keys''")
    case None
    then show ?thesis by (simp add: Expirer_cycle_no_keys)
  next
    case (Some b)
    then show ?thesis using n True fold_expire_entry [of c now b "[]" "[]"]
      by (auto simp: Expirer_cycle_def db_Update_def Expirer_tx_def Let_def fold_Bucket_Delete
        split: option.splits prod.splits)
  qed
qed

lemma Expirer_cycle_tokenNamespace:
  assumes "db ''keys'' = Some b"
  shows "tokenNamespace (Expirer_cycle c NoFault now db) t =
           (if t \<in> fst ` {kv \<in> set b. stale c now (snd kv)} then None else map_of b t)"
  using assms
  by (simp add: tokenNamespace_def Bucket_Get_def Expirer_cycle_keys map_of_fold_delete)

lemma Expirer_cycle_urlNamespace:
  assumes "db ''keys'' = Some b"
  shows "urlNamespace (Expirer_cycle c NoFault now db) u =
           (if u \<in> (\<lambda>kv. Url (snd (json_Unmarshal c (snd kv)))) `
                     {kv \<in> set b. stale c now (snd kv)}
            then None else urlNamespace db u)"
  using assms
  by (simp add: urlNamespace_def Bucket_Get_def Expirer_cycle_urls map_of_fold_delete
      split: option.splits)

text \<open>The sweep keeps the store as the engine keeps it.\<close>

lemma wf_DB_Expirer_cycle:
  assumes "wf_DB db"
  shows "wf_DB (Expirer_cycle c flt now db)"
proof (cases "flt = NoFault")
  case False
  then show ?thesis using assms by (simp add: Expirer_cycle_fault)
next
  case True
  show ?thesis
  proof (cases "db ''keys''")
    case None
    then show ?thesis using assms by (simp add: Expirer_cycle_no_keys)
  next
    case (Some b)
    show ?thesis
      unfolding wf_DB_def
    proof (intro allI impI)
      fix name b'
      assume h: "Expirer_cycle c flt now db name = Some b'"
      consider "name = ''keys''" | "name = ''urls''"
        | "name \<noteq> ''keys''" "name \<noteq> ''urls''"
        by blast
      then show "distinct (map fst b') \<and> [] \<notin> fst ` set b'"
      proof cases
        case 1
        with h True Some obtain ks where b': "b' = fold AList.delete ks b"
          by (auto simp: Expirer_cycle_keys)
        from Some assms have "distinct (map fst b) \<and> [] \<notin> fst ` set b"
          by (simp add: wf_DB_def)
        then show ?thesis
          unfolding b' by (rule wf_bucket_fold_delete)
      next
        case 2
        with h True Some obtain ub us where
          ub: "db ''urls'' = Some ub" and b': "b' = fold AList.delete us ub"
          by (auto simp: Expirer_cycle_urls split: option.splits)
        from ub assms have "distinct (map fst ub) \<and> [] \<notin> fst ` set ub"
          by (simp add: wf_DB_def)
        then show ?thesis
          unfolding b' by (rule wf_bucket_fold_delete)
      next
        case 3
        then show ?thesis
          using h assms by (auto simp: Expirer_cycle_other wf_DB_def)
      qed
    qed
  qed
qed

lemma wf_DB_Expirer: "wf_DB db \<Longrightarrow> wf_DB (Expirer c ticks db)"
  by (induction c ticks db rule: Expirer.induct) (simp_all add: wf_DB_Expirer_cycle)

text \<open>The store with the three tokens, swept at time 10: \<open>a\<close> and \<open>c\<close> go, \<open>b\<close> stays.\<close>

lemma Expirer_cycle_store_abc:
  "Expirer_cycle line_codec NoFault 10 store_abc =
     [''urls'' \<mapsto> [(''http://b'', ''b''), (''http://c'', ''c'')],
      ''keys'' \<mapsto> [(''b'', ''50 http://b'')]]"
proof
  fix name
  let ?b = "[(''a'', ''5 http://a''), (''b'', ''50 http://b''), (''c'', ''garbage'')]"
  have k: "store_abc ''keys'' = Some ?b"
    by (simp add: store_abc_def)
  have u: "Url (snd (json_Unmarshal line_codec ''5 http://a'')) = ''http://a''"
    "Url (snd (json_Unmarshal line_codec ''garbage'')) = []"
    by (simp_all add: line_codec_def line_Unmarshal_5 line_Unmarshal_garbage Key0_def)
  consider "name = ''keys''" | "name = ''urls''" | "name \<noteq> ''keys''" "name \<noteq> ''urls''"
    by blast
  then show "Expirer_cycle line_codec NoFault 10 store_abc name =
     [''urls'' \<mapsto> [(''http://b'', ''b''), (''http://c'', ''c'')],
      ''keys'' \<mapsto> [(''b'', ''50 http://b'')]] name"
  proof cases
    case 1
    from Expirer_cycle_keys [of store_abc ?b line_codec 10, OF k]
    have "Expirer_cycle line_codec NoFault 10 store_abc ''keys'' =
        Some [(''b'', ''50 http://b'')]"
      by (simp add: stale_a stale_b stale_c AList.delete_eq)
    with 1 show ?thesis by simp
  next
    case 2
    have "store_abc ''urls'' =
        Some [(''http://a'', ''a''), (''http://b'', ''b''), (''http://c'', ''c'')]"
      by (simp add: store_abc_def)
    with Expirer_cycle_urls [of store_abc ?b line_codec 10, OF k]
    have "Expirer_cycle line_codec NoFault 10 store_abc ''urls'' =
        Some [(''http://b'', ''b''), (''http://c'', ''c'')]"
      by (simp add: stale_a stale_b stale_c u AList.delete_eq)
    with 2 show ?thesis by simp
  next
    case 3
    then show ?thesis
      by (simp add: Expirer_cycle_other store_abc_def)
  qed
qed

subsection \<open>The claim about the sweep\<close>

text \<open>
  C2, as amended. After one turn of the sweep whose transaction commits, in a store as
  the engine keeps it, for every token \<open>t\<close> with a stored value \<open>v\<close>: if \<open>v\<close> does
  not decode or decodes to an expired record, then \<open>t\<close> is gone from the token
  namespace, and so is, from the URL namespace, the URL that decoding \<open>v\<close> left in the
  \<open>Key\<close> (the target of an expired record; for a value that does not decode, what the
  failed decoding had filled in); otherwise \<open>t\<close> still holds \<open>v\<close> and a request with
  the lookup key \<open>t\<close>, served no later than the expiry, is redirected to the target.
\<close>

theorem C2_Expirer_cycle_sweeps:
  assumes wf: "wf_DB db" and tv: "tokenNamespace db t = Some v"
  shows "(stale c now v \<longrightarrow>
            tokenNamespace (Expirer_cycle c NoFault now db) t = None \<and>
            urlNamespace (Expirer_cycle c NoFault now db) (Url (snd (json_Unmarshal c v))) = None)
       \<and> (\<not> stale c now v \<longrightarrow>
            tokenNamespace (Expirer_cycle c NoFault now db) t = Some v \<and>
            (\<forall>now' req.
               now' \<le> Expiry (snd (json_Unmarshal c v)) \<and>
               TrimLeft (URL_Path req) ''/'' = t \<longrightarrow>
               Serve c NoFault now' (Expirer_cycle c NoFault now db) req =
                 ([http_Redirect (Url (snd (json_Unmarshal c v))) StatusMovedPermanently],
                  Expirer_cycle c NoFault now db)))"
proof -
  from tv obtain b where b: "db ''keys'' = Some b" and m: "map_of b t = Some v"
    by (auto simp: tokenNamespace_def Bucket_Get_def split: option.splits)
  from wf b have d: "distinct (map fst b)" by (simp add: wf_DB_def)
  from m have mem: "(t, v) \<in> set b" by (rule map_of_SomeD)
  have uniq: "v' = v" if "(t, v') \<in> set b" for v'
    using that d m by simp
  show ?thesis
  proof (intro conjI impI)
    assume s: "stale c now v"
    with mem have "t \<in> fst ` {kv \<in> set b. stale c now (snd kv)}" by force
    then show "tokenNamespace (Expirer_cycle c NoFault now db) t = None"
      by (simp add: Expirer_cycle_tokenNamespace [of db b, OF b])
    from s mem have "Url (snd (json_Unmarshal c v)) \<in>
        (\<lambda>kv. Url (snd (json_Unmarshal c (snd kv)))) ` {kv \<in> set b. stale c now (snd kv)}"
      by force
    then show
      "urlNamespace (Expirer_cycle c NoFault now db) (Url (snd (json_Unmarshal c v))) = None"
      by (simp add: Expirer_cycle_urlNamespace [of db b, OF b])
  next
    assume s: "\<not> stale c now v"
    have "t \<notin> fst ` {kv \<in> set b. stale c now (snd kv)}"
      using s uniq by force
    then show kept: "tokenNamespace (Expirer_cycle c NoFault now db) t = Some v"
      using m by (simp add: Expirer_cycle_tokenNamespace [of db b, OF b])
    from s have u: "json_Unmarshal c v = (None, snd (json_Unmarshal c v))"
      by (simp add: stale_def prod_eq_iff)
    show "\<forall>now' req.
               now' \<le> Expiry (snd (json_Unmarshal c v)) \<and>
               TrimLeft (URL_Path req) ''/'' = t \<longrightarrow>
               Serve c NoFault now' (Expirer_cycle c NoFault now db) req =
                 ([http_Redirect (Url (snd (json_Unmarshal c v))) StatusMovedPermanently],
                  Expirer_cycle c NoFault now db)"
      using kept u by (auto intro: Serve_live)
  qed
qed

text \<open>
  C2 as amended, at an input: the store with the three tokens, swept at time 10. The
  token \<open>a\<close> (expired at 5) and its URL are gone; the token \<open>b\<close> (expiring at 50) is
  kept and the request for \<open>/b\<close> at time 20 is redirected.
\<close>

theorem C2_Expirer_cycle_sweeps_witness:
  "wf_DB store_abc \<and>
   tokenNamespace store_abc ''a'' = Some ''5 http://a'' \<and> stale line_codec 10 ''5 http://a'' \<and>
   tokenNamespace (Expirer_cycle line_codec NoFault 10 store_abc) ''a'' = None \<and>
   urlNamespace (Expirer_cycle line_codec NoFault 10 store_abc) ''http://a'' = None \<and>
   tokenNamespace store_abc ''b'' = Some ''50 http://b'' \<and>
   \<not> stale line_codec 10 ''50 http://b'' \<and>
   tokenNamespace (Expirer_cycle line_codec NoFault 10 store_abc) ''b'' = Some ''50 http://b'' \<and>
   (20::int) \<le> 50 \<and> TrimLeft (URL_Path (GET ''/b'')) ''/'' = ''b'' \<and>
   Serve line_codec NoFault 20 (Expirer_cycle line_codec NoFault 10 store_abc) (GET ''/b'') =
     ([http_Redirect ''http://b'' StatusMovedPermanently],
      Expirer_cycle line_codec NoFault 10 store_abc)"
proof -
  have ta: "tokenNamespace store_abc ''a'' = Some ''5 http://a''"
    and tb: "tokenNamespace store_abc ''b'' = Some ''50 http://b''"
    by (simp_all add: tokenNamespace_def Bucket_Get_def store_abc_def)
  have p: "TrimLeft (URL_Path (GET ''/b'')) ''/'' = ''b''"
    by (simp add: GET_def TrimLeft_def)
  from C2_Expirer_cycle_sweeps [OF wf_DB_store_abc ta, of line_codec 10]
    C2_Expirer_cycle_sweeps [OF wf_DB_store_abc tb, of line_codec 10]
    wf_DB_store_abc ta tb stale_a stale_b p
  show ?thesis
    by (simp add: line_codec_def line_Unmarshal_5 line_Unmarshal_50)
qed

text \<open>
  C2 as it is written fails for a value that does not decode. In the store with the
  three tokens, the URL \<open>http://c\<close> is bound to the token \<open>c\<close>, whose value is not a
  record. The failed decoding leaves the URL of the \<open>Key\<close> empty, so the sweep deletes
  the token \<open>c\<close> and, from the URL namespace, nothing: \<open>http://c\<close> is still bound to
  \<open>c\<close> afterwards.
\<close>

theorem C2_corrupt_record_keeps_its_url:
  "tokenNamespace store_abc ''c'' = Some ''garbage'' \<and>
   fst (json_Unmarshal line_codec ''garbage'') \<noteq> None \<and>
   urlNamespace store_abc ''http://c'' = Some ''c'' \<and>
   tokenNamespace (Expirer_cycle line_codec NoFault 10 store_abc) ''c'' = None \<and>
   urlNamespace (Expirer_cycle line_codec NoFault 10 store_abc) ''http://c'' = Some ''c''"
  unfolding Expirer_cycle_store_abc
  by (simp add: tokenNamespace_def urlNamespace_def Bucket_Get_def
      store_abc_def line_codec_def line_Unmarshal_garbage)

subsection \<open>Mint, case by case\<close>

lemma Key_upd_all: "k\<lparr>Url := u, Expiry := e\<rparr> = \<lparr>Url = u, Expiry = e\<rparr>"
  by (cases k) simp

text \<open>What a transaction of \<open>Mint\<close> that returns no error has done to the two namespaces.\<close>

lemma Mint_tx_success:
  assumes "Mint_tx c now url tx key = (tx', key', None)"
  shows "key' = (case urlNamespace tx url of Some k \<Rightarrow> k | None \<Rightarrow> key)
       \<and> (\<exists>kb. json_Marshal c \<lparr>Url = url, Expiry = now + thirty_days\<rparr> = Inr kb
              \<and> (\<forall>t. tokenNamespace tx' t = (if t = key' then Some kb else tokenNamespace tx t)))
       \<and> (\<forall>u. urlNamespace tx' u = (if u = url then Some key' else urlNamespace tx u))"
  using assms
  unfolding Mint_tx_def CreateBucketIfNotExists_def Bucket_Put_def Bucket_Get_def
    urlNamespace_def tokenNamespace_def Let_def Key_upd_all
  by (auto simp: update_conv' split: sum.splits option.splits if_splits)

lemma Mint_tx_success_buckets:
  assumes "Mint_tx c now url tx key = (tx', key', None)"
  shows "\<exists>kb. tx' = tx(''urls'' \<mapsto> AList.update url key'
                                   (case tx ''urls'' of None \<Rightarrow> [] | Some b \<Rightarrow> b),
                      ''keys'' \<mapsto> AList.update key' kb
                                   (case tx ''keys'' of None \<Rightarrow> [] | Some b \<Rightarrow> b))
            \<and> url \<noteq> [] \<and> key' \<noteq> []"
  using assms
  unfolding Mint_tx_def CreateBucketIfNotExists_def Bucket_Put_def Bucket_Get_def
    Let_def Key_upd_all
  by (auto split: sum.splits option.splits if_splits)

text \<open>The captured \<open>key\<close> after a transaction that returns an error.\<close>

lemma Mint_tx_failure:
  "Mint_tx c now url tx key = (tx', key', Some e) \<Longrightarrow>
   key' = (case urlNamespace tx url of Some k \<Rightarrow> k | None \<Rightarrow> key)"
  unfolding Mint_tx_def CreateBucketIfNotExists_def Bucket_Put_def Bucket_Get_def
    urlNamespace_def Let_def Key_upd_all
  by (auto split: sum.splits option.splits if_splits)

text \<open>The answer \<open>200\<close> followed by a token, and nothing before it, is the answer of success.\<close>

lemma Mint_success:
  assumes "Mint c flt now rnd db req = ([rw_WriteHeader StatusOK, fmt_Fprint t], db')"
  shows "ParseForm req = None \<and> FormValue_url req \<noteq> [] \<and> flt = NoFault
       \<and> Mint_tx c now (FormValue_url req) db (FormatInt rnd 36) = (db', t, None)"
  using assms
  unfolding Mint_def db_Update_def Let_def
  by (cases flt) (auto split: option.splits if_splits prod.splits)

lemma Mint_store:
  "snd (Mint c flt now rnd db req) = db \<or>
   (\<exists>t. Mint_tx c now (FormValue_url req) db (FormatInt rnd 36) =
          (snd (Mint c flt now rnd db req), t, None))"
  unfolding Mint_def db_Update_def Let_def
  by (auto split: option.splits if_splits prod.splits)

lemma Mint_namespaces:
  assumes "Mint c flt now rnd db req = ([rw_WriteHeader StatusOK, fmt_Fprint t], db')"
  shows "FormValue_url req \<noteq> [] \<and> t = Mint_token db (FormValue_url req) rnd
       \<and> (\<exists>kb. json_Marshal c \<lparr>Url = FormValue_url req, Expiry = now + thirty_days\<rparr> = Inr kb
              \<and> (\<forall>t'. tokenNamespace db' t' =
                        (if t' = t then Some kb else tokenNamespace db t')))
       \<and> (\<forall>u. urlNamespace db' u =
                (if u = FormValue_url req then Some t else urlNamespace db u))"
proof -
  from Mint_success [OF assms] have ne: "FormValue_url req \<noteq> []"
    and tx: "Mint_tx c now (FormValue_url req) db (FormatInt rnd 36) = (db', t, None)"
    by simp_all
  from Mint_tx_success [OF tx] ne show ?thesis
    unfolding Mint_token_def by blast
qed

text \<open>
  Enough for \<open>Mint\<close> to succeed: a form that parses, a URL and a token within the limits
  of the engine, a record that encodes within them, and no fault.
\<close>

lemma Mint_succeeds:
  assumes "ParseForm req = None" and "FormValue_url req = url" and "url \<noteq> []"
    and "length url \<le> MaxKeySize"
    and "Mint_token db url rnd = tok" and "tok \<noteq> []" and "length tok \<le> MaxKeySize"
    and "json_Marshal c \<lparr>Url = url, Expiry = now + thirty_days\<rparr> = Inr kb"
    and "length kb \<le> MaxValueSize"
  shows "Mint c NoFault now rnd db req =
           ([rw_WriteHeader StatusOK, fmt_Fprint tok],
            db(''urls'' \<mapsto> AList.update url tok
                            (case db ''urls'' of None \<Rightarrow> [] | Some b \<Rightarrow> b),
               ''keys'' \<mapsto> AList.update tok kb
                            (case db ''keys'' of None \<Rightarrow> [] | Some b \<Rightarrow> b)))"
proof -
  have "MaxKeySize \<le> MaxValueSize" by (simp add: MaxKeySize_def MaxValueSize_def)
  with assms(7) have tv: "length tok \<le> MaxValueSize" by simp
  show ?thesis
    using assms tv
    unfolding Mint_def db_Update_def Mint_tx_def CreateBucketIfNotExists_def Bucket_Put_def
      Bucket_Get_def Mint_token_def urlNamespace_def Let_def Key_upd_all
    by (auto split: option.splits simp: fun_upd_twist fun_upd_idem)
qed

text \<open>An empty URL is refused before the store is touched.\<close>

lemma Mint_empty_url:
  "ParseForm req = None \<Longrightarrow> FormValue_url req = [] \<Longrightarrow>
   Mint c flt now rnd db req = ([http_Error ''missing `url`'' StatusBadRequest], db)"
  by (simp add: Mint_def)

text \<open>Whenever \<open>Mint\<close> answers with an error, the store is as it was.\<close>

lemma Mint_error_store:
  "http_Error m code \<in> set (fst (Mint c flt now rnd db req)) \<Longrightarrow>
   snd (Mint c flt now rnd db req) = db"
  unfolding Mint_def db_Update_def Let_def
  by (auto split: option.splits if_splits prod.splits)

text \<open>
  A transaction of \<open>Mint\<close> that fails: the answer is the error, and then still \<open>200\<close>
  and the token, because the branch that answers the error does not return.
\<close>

lemma Mint_tx_fails:
  assumes "ParseForm req = None" and "FormValue_url req \<noteq> []"
    and "db_Update flt db (Mint_tx c now (FormValue_url req)) (FormatInt rnd 36) =
           (db', key, Some e)"
  shows "Mint c flt now rnd db req =
           ([http_Error ''internal server error'' StatusInternalServerError,
             rw_WriteHeader StatusOK, fmt_Fprint key], db)"
proof -
  have "db' = db"
    using assms(3) unfolding db_Update_def
    by (auto split: if_splits prod.splits option.splits)
  with assms show ?thesis
    by (simp add: Mint_def Let_def)
qed

lemma wf_DB_Mint:
  assumes "wf_DB db"
  shows "wf_DB (snd (Mint c flt now rnd db req))"
proof -
  from Mint_store [of c flt now rnd db req] show ?thesis
  proof
    assume "snd (Mint c flt now rnd db req) = db"
    with assms show ?thesis by simp
  next
    assume "\<exists>t. Mint_tx c now (FormValue_url req) db (FormatInt rnd 36) =
                 (snd (Mint c flt now rnd db req), t, None)"
    then obtain t where
      "Mint_tx c now (FormValue_url req) db (FormatInt rnd 36) =
         (snd (Mint c flt now rnd db req), t, None)"
      by blast
    from Mint_tx_success_buckets [OF this] obtain kb where
      eq: "snd (Mint c flt now rnd db req) =
             db(''urls'' \<mapsto> AList.update (FormValue_url req) t
                              (case db ''urls'' of None \<Rightarrow> [] | Some b \<Rightarrow> b),
                ''keys'' \<mapsto> AList.update t kb
                              (case db ''keys'' of None \<Rightarrow> [] | Some b \<Rightarrow> b))"
      and ne: "FormValue_url req \<noteq> []" "t \<noteq> []"
      by blast
    have upd: "distinct (map fst (AList.update k v b)) \<and> [] \<notin> fst ` set (AList.update k v b)"
      if "distinct (map fst b) \<and> [] \<notin> fst ` set b" "k \<noteq> []" for k v and b :: Bucket
      using that by (auto simp: distinct_update dom_update)
    have old: "distinct (map fst (case db name of None \<Rightarrow> [] | Some b \<Rightarrow> b)) \<and>
               [] \<notin> fst ` set (case db name of None \<Rightarrow> [] | Some b \<Rightarrow> b)" for name
      using assms by (auto simp: wf_DB_def split: option.splits)
    show ?thesis
      unfolding eq wf_DB_def
      using upd [OF old ne(1)] upd [OF old ne(2)] assms
      by (auto simp: wf_DB_def split: if_splits)
  qed
qed

subsection \<open>Mint on the examples\<close>

lemma Mint_a:
  "Mint line_codec NoFault 0 10 Map.empty (POST_mint ''http://a'') =
     ([rw_WriteHeader StatusOK, fmt_Fprint ''a''], store_a)"
proof -
  have "Mint line_codec NoFault 0 10 Map.empty (POST_mint ''http://a'') =
     ([rw_WriteHeader StatusOK, fmt_Fprint ''a''],
      Map.empty(''urls'' \<mapsto> AList.update ''http://a'' ''a''
                   (case Map.empty ''urls'' of None \<Rightarrow> [] | Some b \<Rightarrow> b),
         ''keys'' \<mapsto> AList.update ''a'' (''2592000000000000 '' @ ''http://a'')
                   (case Map.empty ''keys'' of None \<Rightarrow> [] | Some b \<Rightarrow> b)))"
    by (rule Mint_succeeds [where url = "''http://a''"])
       (simp_all add: POST_mint_def MaxKeySize_def MaxValueSize_def Mint_token_def
          urlNamespace_def Bucket_Get_def FormatInt_10 line_Marshal_0)
  then show ?thesis by (simp add: store_a_def)
qed

lemma Mint_a_again:
  "Mint line_codec NoFault 7 11 store_a (POST_mint ''http://a'') =
     ([rw_WriteHeader StatusOK, fmt_Fprint ''a''],
      [''urls'' \<mapsto> [(''http://a'', ''a'')],
       ''keys'' \<mapsto> [(''a'', ''2592000000000007 http://a'')]])"
proof -
  have "Mint line_codec NoFault 7 11 store_a (POST_mint ''http://a'') =
     ([rw_WriteHeader StatusOK, fmt_Fprint ''a''],
      store_a(''urls'' \<mapsto> AList.update ''http://a'' ''a''
                 (case store_a ''urls'' of None \<Rightarrow> [] | Some b \<Rightarrow> b),
         ''keys'' \<mapsto> AList.update ''a'' (''2592000000000007 '' @ ''http://a'')
                 (case store_a ''keys'' of None \<Rightarrow> [] | Some b \<Rightarrow> b)))"
    by (rule Mint_succeeds [where url = "''http://a''"])
       (simp_all add: POST_mint_def MaxKeySize_def MaxValueSize_def Mint_token_def
          urlNamespace_def Bucket_Get_def store_a_def line_Marshal_7)
  then show ?thesis by (simp add: store_a_def)
qed

text \<open>A second URL minted with the random number that the first one got.\<close>

lemma Mint_b_collides:
  "Mint line_codec NoFault 0 10 store_a (POST_mint ''http://b'') =
     ([rw_WriteHeader StatusOK, fmt_Fprint ''a''],
      [''urls'' \<mapsto> [(''http://a'', ''a''), (''http://b'', ''a'')],
       ''keys'' \<mapsto> [(''a'', ''2592000000000000 http://b'')]])"
proof -
  have "Mint line_codec NoFault 0 10 store_a (POST_mint ''http://b'') =
     ([rw_WriteHeader StatusOK, fmt_Fprint ''a''],
      store_a(''urls'' \<mapsto> AList.update ''http://b'' ''a''
                 (case store_a ''urls'' of None \<Rightarrow> [] | Some b \<Rightarrow> b),
         ''keys'' \<mapsto> AList.update ''a'' (''2592000000000000 '' @ ''http://b'')
                 (case store_a ''keys'' of None \<Rightarrow> [] | Some b \<Rightarrow> b)))"
    by (rule Mint_succeeds [where url = "''http://b''"])
       (simp_all add: POST_mint_def MaxKeySize_def MaxValueSize_def Mint_token_def
          urlNamespace_def Bucket_Get_def store_a_def FormatInt_10 line_Marshal_0)
  then show ?thesis by (simp add: store_a_def)
qed

subsection \<open>Claims about Mint\<close>

text \<open>
  C3. A mint whose transaction fails should answer with an error and no token. Here the
  URL is one byte longer than the longest key bbolt accepts, the store is empty and the
  random number is 10. \<open>Put\<close> into \<open>urls\<close> fails, the transaction is rolled back and
  the store stays empty; the handler answers the internal error and then, because that
  branch has no \<open>return\<close>, writes the status 200 and the token \<open>a\<close>.
\<close>

theorem C3_Mint_failure_writes_token:
  "Mint line_codec NoFault 0 10 Map.empty
     (POST_mint (replicate (Suc MaxKeySize) (CHR ''a''))) =
     ([http_Error ''internal server error'' StatusInternalServerError,
       rw_WriteHeader StatusOK, fmt_Fprint ''a''], Map.empty)"
  by (simp add: Mint_def POST_mint_def db_Update_def Mint_tx_def CreateBucketIfNotExists_def
      Bucket_Get_def Bucket_Put_def Let_def FormatInt_10 line_codec_def line_Marshal_def
      thirty_days_def)

text \<open>
  C5. Two mints of the same URL, one after the other, that both succeed, the second not
  earlier than the first: the second returns the token of the first, and under that token
  the first stores the encoding of the record that expires thirty days after it, the second
  the encoding of the record that expires thirty days after it, which is no earlier.
\<close>

theorem C5_Mint_twice:
  assumes "Mint c flt1 now1 rnd1 db req1 = ([rw_WriteHeader StatusOK, fmt_Fprint t1], db1)"
    and "Mint c flt2 now2 rnd2 db1 req2 = ([rw_WriteHeader StatusOK, fmt_Fprint t2], db2)"
    and "FormValue_url req2 = FormValue_url req1"
    and "now1 \<le> now2"
  shows "t2 = t1 \<and>
         (\<exists>v1 v2.
            json_Marshal c \<lparr>Url = FormValue_url req1, Expiry = now1 + thirty_days\<rparr> = Inr v1 \<and>
            tokenNamespace db1 t1 = Some v1 \<and>
            json_Marshal c \<lparr>Url = FormValue_url req1, Expiry = now2 + thirty_days\<rparr> = Inr v2 \<and>
            tokenNamespace db2 t1 = Some v2 \<and>
            now1 + thirty_days \<le> now2 + thirty_days)"
proof -
  from Mint_namespaces [OF assms(1)] obtain v1 where
    m1: "json_Marshal c \<lparr>Url = FormValue_url req1, Expiry = now1 + thirty_days\<rparr> = Inr v1"
    and tk1: "tokenNamespace db1 t1 = Some v1"
    and u1: "urlNamespace db1 (FormValue_url req1) = Some t1"
    by auto
  from Mint_namespaces [OF assms(2)] assms(3) u1 obtain v2 where
    t: "t2 = t1"
    and m2: "json_Marshal c \<lparr>Url = FormValue_url req1, Expiry = now2 + thirty_days\<rparr> = Inr v2"
    and tk2: "tokenNamespace db2 t2 = Some v2"
    by (auto simp: Mint_token_def)
  from t m1 tk1 m2 tk2 assms(4) show ?thesis by simp
qed

text \<open>
  C5, at an input: \<open>http://a\<close> minted into the empty store at time 0 and again at time
  7, with the random numbers 10 and 11. Both return the token \<open>a\<close>.
\<close>

theorem C5_Mint_twice_witness:
  "Mint line_codec NoFault 0 10 Map.empty (POST_mint ''http://a'') =
     ([rw_WriteHeader StatusOK, fmt_Fprint ''a''], store_a) \<and>
   Mint line_codec NoFault 7 11 store_a (POST_mint ''http://a'') =
     ([rw_WriteHeader StatusOK, fmt_Fprint ''a''],
      [''urls'' \<mapsto> [(''http://a'', ''a'')],
       ''keys'' \<mapsto> [(''a'', ''2592000000000007 http://a'')]]) \<and>
   (0::int) \<le> 7 \<and>
   (\<exists>v1 v2.
      json_Marshal line_codec \<lparr>Url = ''http://a'', Expiry = 0 + thirty_days\<rparr> = Inr v1 \<and>
      tokenNamespace store_a ''a'' = Some v1 \<and>
      json_Marshal line_codec \<lparr>Url = ''http://a'', Expiry = 7 + thirty_days\<rparr> = Inr v2 \<and>
      tokenNamespace [''urls'' \<mapsto> [(''http://a'', ''a'')],
         ''keys'' \<mapsto> [(''a'', ''2592000000000007 http://a'')]] ''a'' = Some v2 \<and>
      (0::int) + thirty_days \<le> 7 + thirty_days)"
proof -
  have h3: "FormValue_url (POST_mint ''http://a'') = FormValue_url (POST_mint ''http://a'')"
    by simp
  have h4: "(0::int) \<le> 7" by simp
  from C5_Mint_twice [OF Mint_a Mint_a_again h3 h4] Mint_a Mint_a_again
  show ?thesis
    by (simp add: POST_mint_def)
qed

text \<open>
  C6, as amended. After a mint that succeeds, with a codec that gives the record back (as
  \<open>encoding/json\<close> does when the URL is valid UTF-8), a request
  whose lookup key is the returned token, served no later than thirty days after the
  mint, is redirected to the minted URL, which is not empty; nothing else is answered.
\<close>

theorem C6_Mint_then_Serve:
  assumes "Mint c flt now rnd db req = ([rw_WriteHeader StatusOK, fmt_Fprint t], db')"
    and "roundtrips c \<lparr>Url = FormValue_url req, Expiry = now + thirty_days\<rparr>"
    and "TrimLeft (URL_Path req') ''/'' = t"
    and "now' \<le> now + thirty_days"
  shows "FormValue_url req \<noteq> [] \<and>
         Serve c NoFault now' db' req' =
           ([http_Redirect (FormValue_url req) StatusMovedPermanently], db')"
proof -
  from Mint_namespaces [OF assms(1)] obtain kb where
    ne: "FormValue_url req \<noteq> []"
    and m: "json_Marshal c \<lparr>Url = FormValue_url req, Expiry = now + thirty_days\<rparr> = Inr kb"
    and tk: "tokenNamespace db' t = Some kb"
    by auto
  from assms(2) m have
    "json_Unmarshal c kb = (None, \<lparr>Url = FormValue_url req, Expiry = now + thirty_days\<rparr>)"
    by (simp add: roundtrips_def)
  with tk assms(3,4) ne show ?thesis
    using Serve_live [of db' req' kb c
        "\<lparr>Url = FormValue_url req, Expiry = now + thirty_days\<rparr>" now']
    by simp
qed

text \<open>
  C6 as amended, at an input: \<open>http://a\<close> minted into the empty store at time 0 gets the token
  \<open>a\<close>, and the request for \<open>/a\<close> at time 5 is redirected to \<open>http://a\<close>.
\<close>

theorem C6_Mint_then_Serve_witness:
  "Mint line_codec NoFault 0 10 Map.empty (POST_mint ''http://a'') =
     ([rw_WriteHeader StatusOK, fmt_Fprint ''a''], store_a) \<and>
   roundtrips line_codec \<lparr>Url = ''http://a'', Expiry = 0 + thirty_days\<rparr> \<and>
   TrimLeft (URL_Path (GET ''/a'')) ''/'' = ''a'' \<and>
   (5::int) \<le> 0 + thirty_days \<and>
   Serve line_codec NoFault 5 store_a (GET ''/a'') =
     ([http_Redirect ''http://a'' StatusMovedPermanently], store_a)"
proof -
  have h2: "roundtrips line_codec
      \<lparr>Url = FormValue_url (POST_mint ''http://a''), Expiry = 0 + thirty_days\<rparr>"
    by (simp add: POST_mint_def roundtrips_0)
  have h3: "TrimLeft (URL_Path (GET ''/a'')) ''/'' = ''a''"
    by (simp add: GET_def TrimLeft_def)
  have h4: "(5::int) \<le> 0 + thirty_days" by (simp add: thirty_days_def)
  from C6_Mint_then_Serve [OF Mint_a h2 h3 h4] Mint_a h2 h3 h4 show ?thesis
    by (simp add: POST_mint_def)
qed

text \<open>The codec that coerces, on the URL of the single byte FF.\<close>

lemma coercing_Marshal_ff:
  "json_Marshal coercing_codec \<lparr>Url = [CHR 0xFF], Expiry = thirty_days\<rparr> =
     Inr (''2592000000000000 '' @ [CHR 0xEF, CHR 0xBF, CHR 0xBD])"
  by (simp add: coercing_codec_def coercing_Marshal_def replace_0xFF_def line_Marshal_def
      thirty_days_def FormatInt_expiry)

lemma coercing_Unmarshal_ff:
  "json_Unmarshal coercing_codec (''2592000000000000 '' @ [CHR 0xEF, CHR 0xBF, CHR 0xBD]) =
     (None, \<lparr>Url = [CHR 0xEF, CHR 0xBF, CHR 0xBD], Expiry = thirty_days\<rparr>)"
  by (simp add: coercing_codec_def line_Unmarshal_def thirty_days_def digits_def)

lemma Mint_ff:
  "Mint coercing_codec NoFault 0 10 Map.empty (POST_mint [CHR 0xFF]) =
     ([rw_WriteHeader StatusOK, fmt_Fprint ''a''], store_ff)"
proof -
  have "Mint coercing_codec NoFault 0 10 Map.empty (POST_mint [CHR 0xFF]) =
     ([rw_WriteHeader StatusOK, fmt_Fprint ''a''],
      Map.empty(''urls'' \<mapsto> AList.update [CHR 0xFF] ''a''
                   (case Map.empty ''urls'' of None \<Rightarrow> [] | Some b \<Rightarrow> b),
         ''keys'' \<mapsto> AList.update ''a'' (''2592000000000000 '' @ [CHR 0xEF, CHR 0xBF, CHR 0xBD])
                   (case Map.empty ''keys'' of None \<Rightarrow> [] | Some b \<Rightarrow> b)))"
    by (rule Mint_succeeds [where url = "[CHR 0xFF]"])
       (simp_all add: POST_mint_def MaxKeySize_def MaxValueSize_def Mint_token_def
          urlNamespace_def Bucket_Get_def FormatInt_10 coercing_Marshal_ff)
  then show ?thesis by (simp add: store_ff_def)
qed

text \<open>
  C6 as it is written fails for a URL that is not valid UTF-8. The URL of the single byte
  FF is not empty; minted into the empty store at time 0 with the random number 10, it
  gets the token \<open>a\<close>, and the record is stored with U+FFFD in the place of the byte. The
  request for \<open>/a\<close> at time 5 is redirected to that other URL.
\<close>

theorem C6_invalid_UTF8_redirects_elsewhere:
  "[CHR 0xFF] \<noteq> [] \<and>
   Mint coercing_codec NoFault 0 10 Map.empty (POST_mint [CHR 0xFF]) =
     ([rw_WriteHeader StatusOK, fmt_Fprint ''a''], store_ff) \<and>
   Serve coercing_codec NoFault 5 store_ff (GET ''/a'') =
     ([http_Redirect [CHR 0xEF, CHR 0xBF, CHR 0xBD] StatusMovedPermanently], store_ff) \<and>
   [CHR 0xEF, CHR 0xBF, CHR 0xBD] \<noteq> [CHR 0xFF]"
proof -
  have t: "tokenNamespace store_ff (TrimLeft (URL_Path (GET ''/a'')) ''/'') =
      Some (''2592000000000000 '' @ [CHR 0xEF, CHR 0xBF, CHR 0xBD])"
    by (simp add: tokenNamespace_def Bucket_Get_def store_ff_def GET_def TrimLeft_def)
  have e: "\<not> Expiry \<lparr>Url = [CHR 0xEF, CHR 0xBF, CHR 0xBD], Expiry = thirty_days\<rparr> < 5"
    by (simp add: thirty_days_def)
  from Serve_live [OF t coercing_Unmarshal_ff e] Mint_ff show ?thesis by simp
qed

text \<open>
  C9. A mint that succeeds, of a URL that the URL namespace does not hold, with a random
  number in the range of \<open>rand.Int63()\<close>: the token returned is that number written in
  base 36, it is not empty, has at most 13 characters, all of them among \<open>0-9\<close> and
  \<open>a-z\<close>, and afterwards the URL is bound to it and it holds the encoded record.
\<close>

theorem C9_Mint_fresh_token:
  assumes "0 \<le> rnd" and "rnd < 2 ^ 63"
    and "urlNamespace db (FormValue_url req) = None"
    and "Mint c flt now rnd db req = ([rw_WriteHeader StatusOK, fmt_Fprint t], db')"
  shows "t = FormatInt rnd 36 \<and> t \<noteq> [] \<and> length t \<le> 13
       \<and> set t \<subseteq> set ''0123456789abcdefghijklmnopqrstuvwxyz''
       \<and> urlNamespace db' (FormValue_url req) = Some t
       \<and> (\<exists>kb. json_Marshal c \<lparr>Url = FormValue_url req, Expiry = now + thirty_days\<rparr> = Inr kb
              \<and> tokenNamespace db' t = Some kb)"
proof -
  from Mint_namespaces [OF assms(4)] assms(3) have t: "t = FormatInt rnd 36"
    and u: "urlNamespace db' (FormValue_url req) = Some t"
    and k: "\<exists>kb. json_Marshal c \<lparr>Url = FormValue_url req, Expiry = now + thirty_days\<rparr> = Inr kb
              \<and> tokenNamespace db' t = Some kb"
    by (auto simp: Mint_token_def)
  from FormatInt_Int63 [OF assms(1,2)] t u k show ?thesis
    by (simp add: digits_def)
qed

text \<open>
  C9, at an input: \<open>http://a\<close> minted into the empty store with the random number 10
  gets the token \<open>a\<close>.
\<close>

theorem C9_Mint_fresh_token_witness:
  "(0::int) \<le> 10 \<and> (10::int) < 2 ^ 63 \<and>
   urlNamespace Map.empty (FormValue_url (POST_mint ''http://a'')) = None \<and>
   Mint line_codec NoFault 0 10 Map.empty (POST_mint ''http://a'') =
     ([rw_WriteHeader StatusOK, fmt_Fprint ''a''], store_a) \<and>
   FormatInt 10 36 = ''a'' \<and> length ''a'' \<le> 13 \<and>
   urlNamespace store_a ''http://a'' = Some ''a'' \<and>
   (\<exists>kb. json_Marshal line_codec \<lparr>Url = ''http://a'', Expiry = 0 + thirty_days\<rparr> = Inr kb \<and>
         tokenNamespace store_a ''a'' = Some kb)"
proof -
  have h1: "(0::int) \<le> 10" and h2: "(10::int) < 2 ^ 63" by simp_all
  have h3: "urlNamespace Map.empty (FormValue_url (POST_mint ''http://a'')) = None"
    by (simp add: urlNamespace_def Bucket_Get_def)
  from C9_Mint_fresh_token [OF h1 h2 h3 Mint_a] h3 Mint_a show ?thesis
    by (simp add: POST_mint_def FormatInt_10)
qed

subsection \<open>The invariant across the two namespaces\<close>

text \<open>Time passing keeps the invariant: a record that has not expired later had not before.\<close>

lemma xinv_later: "xinv c now db \<Longrightarrow> now \<le> now' \<Longrightarrow> xinv c now' db"
  unfolding xinv_def by (meson le_less_trans not_less order_trans)

lemma xinv_empty: "xinv c now Map.empty"
  by (simp add: xinv_def urlNamespace_def Bucket_Get_def)

text \<open>The sweep only deletes, so it keeps the invariant, whatever the time and the fault.\<close>

lemma xinv_Expirer_cycle:
  assumes "xinv c now db"
  shows "xinv c now (Expirer_cycle c flt now' db)"
proof (cases "flt = NoFault")
  case False
  then show ?thesis using assms by (simp add: Expirer_cycle_fault)
next
  case True
  show ?thesis
  proof (cases "db ''keys''")
    case None
    then show ?thesis using assms by (simp add: Expirer_cycle_no_keys)
  next
    case (Some b)
    have old: "tokenNamespace db t = map_of b t" for t
      using Some by (simp add: tokenNamespace_def Bucket_Get_def)
    have t: "tokenNamespace (Expirer_cycle c NoFault now' db) t = Some v \<Longrightarrow>
             tokenNamespace db t = Some v" for t v
      unfolding old Expirer_cycle_tokenNamespace [of db b, OF Some]
      by (simp split: if_splits)
    have u: "urlNamespace (Expirer_cycle c NoFault now' db) u = Some t \<Longrightarrow>
             urlNamespace db u = Some t" for u t
      unfolding Expirer_cycle_urlNamespace [of db b, OF Some]
      by (simp split: if_splits)
    show ?thesis
      using assms True unfolding xinv_def by (blast dest: t u)
  qed
qed

text \<open>
  \<open>Mint\<close> keeps the invariant when the token it writes is bound to no other URL and the
  codec gives the record back.
\<close>

lemma xinv_Mint:
  assumes inv: "xinv c now db"
    and fresh: "bound_only_to db (Mint_token db (FormValue_url req) rnd) (FormValue_url req)"
    and rt: "roundtrips c \<lparr>Url = FormValue_url req, Expiry = now + thirty_days\<rparr>"
  shows "xinv c now (snd (Mint c flt now rnd db req))"
proof -
  from Mint_store [of c flt now rnd db req] show ?thesis
  proof
    assume "snd (Mint c flt now rnd db req) = db"
    with inv show ?thesis by simp
  next
    assume "\<exists>t. Mint_tx c now (FormValue_url req) db (FormatInt rnd 36) =
                 (snd (Mint c flt now rnd db req), t, None)"
    then obtain t where tx:
      "Mint_tx c now (FormValue_url req) db (FormatInt rnd 36) =
         (snd (Mint c flt now rnd db req), t, None)"
      by blast
    let ?db' = "snd (Mint c flt now rnd db req)"
    let ?url = "FormValue_url req"
    from Mint_tx_success [OF tx] obtain kb where
      t: "t = Mint_token db ?url rnd"
      and m: "json_Marshal c \<lparr>Url = ?url, Expiry = now + thirty_days\<rparr> = Inr kb"
      and tk: "\<And>t'. tokenNamespace ?db' t' = (if t' = t then Some kb else tokenNamespace db t')"
      and un: "\<And>u. urlNamespace ?db' u = (if u = ?url then Some t else urlNamespace db u)"
      by (auto simp: Mint_token_def)
    from rt m have d: "json_Unmarshal c kb = (None, \<lparr>Url = ?url, Expiry = now + thirty_days\<rparr>)"
      by (simp add: roundtrips_def)
    show ?thesis
      unfolding xinv_def
    proof (intro allI impI, elim conjE)
      fix u t' v k
      assume a: "urlNamespace ?db' u = Some t'" "tokenNamespace ?db' t' = Some v"
        "json_Unmarshal c v = (None, k)" "\<not> Expiry k < now"
      show "Url k = u"
      proof (cases "t' = t")
        case True
        with a(2) tk have "v = kb" by simp
        with a(3) d have "k = \<lparr>Url = ?url, Expiry = now + thirty_days\<rparr>" by simp
        then have k: "Url k = ?url" by simp
        have "u = ?url"
        proof (rule ccontr)
          assume "u \<noteq> ?url"
          with a(1) un True have "urlNamespace db u = Some t" by simp
          with fresh t \<open>u \<noteq> ?url\<close> show False by (simp add: bound_only_to_def)
        qed
        with k show ?thesis by simp
      next
        case False
        with a(2) tk have o: "tokenNamespace db t' = Some v" by simp
        from a(1) un False have "urlNamespace db u = Some t'"
          by (cases "u = ?url") simp_all
        with o a(3,4) inv show ?thesis unfolding xinv_def by blast
      qed
    qed
  qed
qed

lemma xinv_store_a: "xinv line_codec 0 store_a"
  using line_Unmarshal_0 [of "''http://a''"]
  by (auto simp: xinv_def store_a_def urlNamespace_def tokenNamespace_def Bucket_Get_def
      split: if_splits)

text \<open>
  C4, as amended. From a store in which the invariant holds: a mint keeps it, whether it
  succeeds or fails, provided that the token it writes is bound to no other URL (the
  candidate does not collide) and the codec gives the written record back; and one turn
  of the sweep keeps it, whether its transaction commits or not.
\<close>

theorem C4_invariant_preserved:
  assumes "xinv c now db"
  shows "(bound_only_to db (Mint_token db (FormValue_url req) rnd) (FormValue_url req) \<and>
          roundtrips c \<lparr>Url = FormValue_url req, Expiry = now + thirty_days\<rparr> \<longrightarrow>
          xinv c now (snd (Mint c flt now rnd db req)))
       \<and> xinv c now (Expirer_cycle c flt now db)"
  using assms xinv_Mint [of c now db req rnd flt] xinv_Expirer_cycle [of c now db flt now]
  by blast

text \<open>
  C4 as amended, at an input: in the store that holds \<open>http://a\<close> under the token
  \<open>a\<close>, minting \<open>http://b\<close> with the random number 11 (the token \<open>b\<close>) keeps the
  invariant, and so does a turn of the sweep.
\<close>

theorem C4_invariant_preserved_witness:
  "xinv line_codec 0 store_a \<and>
   bound_only_to store_a (Mint_token store_a ''http://b'' 11) ''http://b'' \<and>
   roundtrips line_codec \<lparr>Url = ''http://b'', Expiry = 0 + thirty_days\<rparr> \<and>
   xinv line_codec 0 (snd (Mint line_codec NoFault 0 11 store_a (POST_mint ''http://b''))) \<and>
   xinv line_codec 0 (Expirer_cycle line_codec NoFault 0 store_a)"
proof -
  have f: "bound_only_to store_a
      (Mint_token store_a (FormValue_url (POST_mint ''http://b'')) 11)
      (FormValue_url (POST_mint ''http://b''))"
    by (simp add: bound_only_to_def Mint_token_def urlNamespace_def Bucket_Get_def store_a_def
        POST_mint_def FormatInt_11)
  have r: "roundtrips line_codec
      \<lparr>Url = FormValue_url (POST_mint ''http://b''), Expiry = 0 + thirty_days\<rparr>"
    by (simp add: POST_mint_def roundtrips_0)
  from C4_invariant_preserved [OF xinv_store_a, of "POST_mint ''http://b''" 11 NoFault] f r
    xinv_store_a
  show ?thesis
    by (simp add: POST_mint_def)
qed

text \<open>
  C4 as it is written fails when a candidate token collides. \<open>http://a\<close> is minted into
  the empty store with the random number 10 and gets the token \<open>a\<close>; the invariant
  holds. Then \<open>http://b\<close> is minted with the same random number: \<open>Mint\<close> does not look
  whether the candidate is in use, and overwrites the record of \<open>a\<close>. Now \<open>http://a\<close>
  is bound to \<open>a\<close>, whose record has not expired and has the target \<open>http://b\<close>.
\<close>

theorem C4_collision_breaks_invariant:
  "xinv line_codec 0 (snd (Mint line_codec NoFault 0 10 Map.empty (POST_mint ''http://a''))) \<and>
   \<not> xinv line_codec 0
     (snd (Mint line_codec NoFault 0 10
        (snd (Mint line_codec NoFault 0 10 Map.empty (POST_mint ''http://a'')))
        (POST_mint ''http://b'')))"
proof -
  let ?db2 = "[''urls'' \<mapsto> [(''http://a'', ''a''), (''http://b'', ''a'')],
       ''keys'' \<mapsto> [(''a'', ''2592000000000000 http://b'')]]"
  have u: "urlNamespace ?db2 ''http://a'' = Some ''a''"
    by (simp add: urlNamespace_def Bucket_Get_def)
  have t: "tokenNamespace ?db2 ''a'' = Some (''2592000000000000 '' @ ''http://b'')"
    by (simp add: tokenNamespace_def Bucket_Get_def)
  have e: "\<not> Expiry \<lparr>Url = ''http://b'', Expiry = thirty_days\<rparr> < 0"
    by (simp add: thirty_days_def)
  have "\<not> xinv line_codec 0 ?db2"
  proof
    assume "xinv line_codec 0 ?db2"
    with u t line_Unmarshal_0 [of "''http://b''"] e
    have "Url \<lparr>Url = ''http://b'', Expiry = thirty_days\<rparr> = ''http://a''"
      unfolding xinv_def by blast
    then show False by simp
  qed
  then show ?thesis
    by (simp add: Mint_a Mint_b_collides xinv_store_a)
qed

end
